theory Spec2Isabelle
  imports Main "HOL-Library.Word"
begin

section \<open>HDPrivateKey (ts\_src/hd/private.ts): data model\<close>

text \<open>
  The class \<open>HDPrivateKey\<close> keeps a seed, the master node derived from it, the root node of
  the current derivation path, a cache from child index to (address, key pair) and the
  ordered list \<open>wallets\<close> of registered key pairs. Buffers and \<open>Uint8Array\<close>s are lists of
  bytes; indices and lengths are naturals; the \<open>number\<close> arguments the callers pass
  (\<open>addAccounts\<close>, \<open>numberOfAccounts\<close>, \<open>childIndex\<close>) are integers.
\<close>

type_synonym bytes = "8 word list"

text \<open>
  Every \<open>throw new Error(...)\<close> of the source is one constructor, named after its message.
  \<open>TypeError\<close> is the runtime's error for reading a property of \<open>undefined\<close>;
  \<open>InvalidHex\<close>, \<open>InvalidBytes\<close>, \<open>InvalidPath\<close>, \<open>InvalidMnemonic\<close> and
  \<open>PsbtError\<close> are what the external primitives throw.
\<close>

datatype error =
    AccountNotFound string
  | PublicKeyNotFound string
  | MustSpecifyPublicKey
  | NoMatchingPublicKey
  | MethodNotAllowed
  | NotRootWallet
  | BadSerializedState
  | TypeError
  | InvalidHex
  | InvalidBytes
  | InvalidPath
  | InvalidMnemonic
  | PsbtError

text \<open>An \<open>HDNode\<close> of the hdkey library: only its keys are read by the class.\<close>

record hdnode =
  nodePrivateKey :: bytes
  nodePublicKey :: bytes
  nodeChainCode :: bytes

text \<open>
  An \<open>ECPairInterface\<close> object. \<open>wallets.includes(wallet)\<close> compares objects by identity,
  not by content, so every object carries the reference \<open>ecRef\<close> it was allocated at;
  two objects with the same keys and different references are different objects.
\<close>

record ecpair =
  ecRef :: nat
  ecPrivateKey :: bytes
  ecPublicKey :: bytes

text \<open>
  The external collaborators, as pure functions. \<open>fromHex\<close>, \<open>derive\<close> and
  \<open>mnemonicToSeed\<close> parse text supplied by the caller and can fail (\<open>None\<close>); key
  derivation and the curve operations are total. \<open>toHex\<close> and \<open>fromHex\<close> are the codec of
  the hashes library, \<open>bufferHex\<close> is \<open>Buffer.toString("hex")\<close>, \<open>pointFromScalar\<close> is the
  public key \<open>ECPair.fromPrivateKey\<close> computes, \<open>messageSign\<close> and \<open>messageVerify\<close> are
  the \<open>sign\<close> and \<open>verify\<close> of \<open>bitcore.Message\<close>.
  \<open>getAddress\<close> and the initial \<open>addressType\<close> belong to the base class \<open>BaseWallet\<close>,
  \<open>ZERO_KEY\<close> and \<open>ZERO_PRIVKEY\<close> to the module \<open>common\<close>; neither is part of the source
  file, so they are parameters too. The type \<open>'t\<close> is the address-type tag.
\<close>

record 't prims =
  fromHex :: "string \<Rightarrow> bytes option"
  toHex :: "bytes \<Rightarrow> string"
  bufferHex :: "bytes \<Rightarrow> string"
  fromMasterSeed :: "bytes \<Rightarrow> hdnode"
  derive :: "hdnode \<Rightarrow> string \<Rightarrow> hdnode option"
  deriveChild :: "hdnode \<Rightarrow> nat \<Rightarrow> hdnode"
  pointFromScalar :: "bytes \<Rightarrow> bytes"
  getAddress :: "'t option \<Rightarrow> bytes \<Rightarrow> string"
  messageSign :: "string \<Rightarrow> string \<Rightarrow> string"
  messageVerify :: "string \<Rightarrow> string \<Rightarrow> string \<Rightarrow> bool"
  mnemonicToSeed :: "string \<Rightarrow> string \<Rightarrow> bytes option"
  ZERO_KEY :: bytes
  ZERO_PRIVKEY :: bytes
  initialAddressType :: "'t option"

text \<open>
  A suspended \<open>async\<close> call: \<open>fromMnemonic\<close> stops at its \<open>await\<close> and the rest of its
  body runs later, once the promise of \<open>mnemonicToSeed(mnemonic, passphrase)\<close> settles.
\<close>

datatype task = AwaitSeed string string

text \<open>
  The instance. \<open>nextRef\<close> is the next free object reference. \<open>derivLog\<close> is not a field of
  the class: it records, in order, the indices \<open>deriveChild\<close> has been called with since
  the cache was last emptied. \<open>pending\<close> holds the suspended continuations.
\<close>

record 't hdstate =
  childIndex :: int
  privateKey :: bytes
  publicKey :: bytes
  wallets :: "ecpair list"
  seed :: "bytes option"
  index2wallet :: "nat \<rightharpoonup> string \<times> ecpair"
  hdWallet :: "hdnode option"
  root :: "hdnode option"
  hdPath :: string
  addressType :: "'t option"
  nextRef :: nat
  derivLog :: "nat list"
  pending :: "task list"

record 't SerializedHDKey =
  numberOfAccounts :: "int option"
  serializedSeed :: string
  serializedAddressType :: "'t option"

definition hdPathString :: string where
  "hdPathString = ''m/44'/0'/0'/0''"

text \<open>\<open>new HDPrivateKey()\<close>: the field initialisers of the class.\<close>

definition newHDPrivateKey :: "'t prims \<Rightarrow> 't hdstate" where
  "newHDPrivateKey P =
     \<lparr> childIndex = 0, privateKey = ZERO_PRIVKEY P, publicKey = ZERO_KEY P, wallets = [],
       seed = None, index2wallet = Map.empty, hdWallet = None, root = None,
       hdPath = hdPathString, addressType = initialAddressType P, nextRef = 0,
       derivLog = [], pending = [] \<rparr>"

section \<open>Operations\<close>

text \<open>
  \<open>changeHdPath\<close>: the path is stored, the root re-derived (a throwing \<open>derive\<close> leaves the
  method there), then cache and registry are emptied. \<open>publicKey\<close> and \<open>privateKey\<close> are
  not assigned.
\<close>

definition changeHdPath :: "'t prims \<Rightarrow> string \<Rightarrow> 't hdstate \<Rightarrow> (error + unit) \<times> 't hdstate" where
  "changeHdPath P path s =
     (let s1 = s\<lparr>hdPath := path\<rparr> in
      case hdWallet s1 of
        None \<Rightarrow> (Inr (), s1\<lparr>root := None, index2wallet := Map.empty, wallets := [], derivLog := []\<rparr>)
      | Some w \<Rightarrow>
          (case derive P w (hdPath s1) of
             None \<Rightarrow> (Inl InvalidPath, s1)
           | Some r \<Rightarrow>
               (Inr (), s1\<lparr>root := Some r, index2wallet := Map.empty, wallets := [],
                          derivLog := []\<rparr>)))"

definition verifyMessage :: "'t prims \<Rightarrow> string \<Rightarrow> string \<Rightarrow> string \<Rightarrow> bool" where
  "verifyMessage P address text sig = messageVerify P text address sig"

definition getAccounts :: "'t prims \<Rightarrow> 't hdstate \<Rightarrow> string list" where
  "getAccounts P s =
     getAddress P (addressType s) (publicKey s)
       # map (\<lambda>w. getAddress P (addressType s) (ecPublicKey w)) (wallets s)"

text \<open>
  \<open>_addressFromIndex\<close>: a cached index returns its entry; otherwise the child is derived, a
  new key-pair object allocated, its address computed, and the entry stored. With no root,
  \<open>this.root?.deriveChild(i)\<close> is \<open>undefined\<close> and reading its \<open>privateKey\<close> throws.
\<close>

definition addressFromIndex ::
  "'t prims \<Rightarrow> nat \<Rightarrow> 't hdstate \<Rightarrow> (error + string \<times> ecpair) \<times> 't hdstate" where
  "addressFromIndex P i s =
     (case index2wallet s i of
        Some e \<Rightarrow> (Inr e, s)
      | None \<Rightarrow>
          (case root s of
             None \<Rightarrow> (Inl TypeError, s)
           | Some r \<Rightarrow>
               (let child = deriveChild P r i;
                    pair = \<lparr> ecRef = nextRef s, ecPrivateKey = nodePrivateKey child,
                             ecPublicKey = pointFromScalar P (nodePrivateKey child) \<rparr>;
                    address = getAddress P (addressType s) (ecPublicKey pair)
                in (Inr (address, pair),
                    s\<lparr>index2wallet := (index2wallet s)(i \<mapsto> (address, pair)),
                      nextRef := Suc (nextRef s),
                      derivLog := derivLog s @ [i]\<rparr>))))"

text \<open>\<open>Array.prototype.includes\<close> on objects: same reference.\<close>

definition wallets_includes :: "ecpair list \<Rightarrow> ecpair \<Rightarrow> bool" where
  "wallets_includes ws w = (ecRef w \<in> set (map ecRef ws))"

text \<open>
  The \<open>while (count)\<close> loop of \<open>addAccounts\<close>. It ends when \<open>count\<close> is 0; a negative
  \<open>count\<close> never reaches 0, so the loop is a partial function and \<open>None\<close> is
  non-termination. An exception of \<open>_addressFromIndex\<close> leaves the loop with the
  registry as it is then. After a key pair has been registered the index is not advanced:
  the next iteration looks the same index up again, finds its object in the registry and
  only then moves on. The default \<open>number = 1\<close> is the caller's to supply.
\<close>

partial_function (option) addLoop ::
  "'t prims \<Rightarrow> int \<Rightarrow> nat \<Rightarrow> string list \<Rightarrow> 't hdstate
     \<Rightarrow> ((error + string list) \<times> 't hdstate) option" where
  "addLoop P count currentIdx newAddresses s =
     (if count = 0 then Some (Inr newAddresses, s)
      else
        (case addressFromIndex P currentIdx s of
           (Inl e, s') \<Rightarrow> Some (Inl e, s')
         | (Inr (address, wallet), s') \<Rightarrow>
             if wallets_includes (wallets s') wallet
             then addLoop P count (currentIdx + 1) newAddresses s'
             else addLoop P (count - 1) currentIdx (newAddresses @ [address])
                    (s'\<lparr>wallets := wallets s' @ [wallet]\<rparr>)))"

definition addAccounts ::
  "'t prims \<Rightarrow> int \<Rightarrow> 't hdstate \<Rightarrow> ((error + string list) \<times> 't hdstate) option" where
  "addAccounts P number s =
     addLoop P number (if length (wallets s) = 0 then 1 else length (wallets s)) [] s"

definition findAccount :: "'t prims \<Rightarrow> string \<Rightarrow> 't hdstate \<Rightarrow> error + ecpair" where
  "findAccount P account s =
     (case find (\<lambda>f. getAddress P (addressType s) (ecPublicKey f) = account) (wallets s) of
        Some foundAccount \<Rightarrow> Inr foundAccount
      | None \<Rightarrow> Inl (AccountNotFound account))"

definition findAccountByPk :: "'t prims \<Rightarrow> string \<Rightarrow> 't hdstate \<Rightarrow> error + ecpair" where
  "findAccountByPk P pk s =
     (case find (\<lambda>f. bufferHex P (ecPublicKey f) = pk) (wallets s) of
        Some foundAccount \<Rightarrow> Inr foundAccount
      | None \<Rightarrow> Inl (PublicKeyNotFound pk))"

definition getWalletForAccount :: "'t prims \<Rightarrow> string \<Rightarrow> 't hdstate \<Rightarrow> error + ecpair" where
  "getWalletForAccount P pk s =
     (case find (\<lambda>wallet. bufferHex P (ecPublicKey wallet) = pk) (wallets s) of
        Some wallet \<Rightarrow> Inr wallet
      | None \<Rightarrow> Inl NoMatchingPublicKey)"

definition getPrivateKeyFor :: "'t prims \<Rightarrow> string \<Rightarrow> 't hdstate \<Rightarrow> error + ecpair" where
  "getPrivateKeyFor P pk s =
     (if pk = [] then Inl MustSpecifyPublicKey else getWalletForAccount P pk s)"

text \<open>
  \<open>signMessage\<close>: the address is looked up among \<open>wallets\<close> only; a miss makes the
  public-key string empty and \<open>_getPrivateKeyFor\<close> throws.
\<close>

definition signMessage :: "'t prims \<Rightarrow> string \<Rightarrow> string \<Rightarrow> 't hdstate \<Rightarrow> error + string" where
  "signMessage P address text s =
     (let pk = (case find (\<lambda>f. getAddress P (addressType s) (ecPublicKey f) = address)
                       (wallets s) of
                  Some f \<Rightarrow> bufferHex P (ecPublicKey f)
                | None \<Rightarrow> [])
      in case getPrivateKeyFor P pk s of
           Inl e \<Rightarrow> Inl e
         | Inr keyPair \<Rightarrow> Inr (messageSign P text (bufferHex P (ecPrivateKey keyPair))))"

definition exportPublicKey :: "'t prims \<Rightarrow> string \<Rightarrow> 't hdstate \<Rightarrow> error + string" where
  "exportPublicKey P address s =
     (case findAccount P address s of
        Inl e \<Rightarrow> Inl e
      | Inr account \<Rightarrow> Inr (bufferHex P (ecPublicKey account)))"

text \<open>
  The transaction container \<open>Psbt\<close> is an external mutable object of type \<open>'p\<close>. Its two
  methods return the container as they leave it, with the error they threw, if any.
\<close>

record 'p psbtOps =
  signInput :: "'p \<Rightarrow> int \<Rightarrow> bytes \<Rightarrow> int list option \<Rightarrow> error option \<times> 'p"
  finalizeAllInputs :: "'p \<Rightarrow> error option \<times> 'p"

record ToSignInput =
  inputIndex :: int
  inputPublicKey :: string
  sighashTypes :: "int list option"

text \<open>
  The callback of \<open>inputs.map\<close> in \<open>signPsbt\<close>, run on the descriptors from left to
  right: resolve the key pair by public key, sign that input in place with a signer made
  from the private key; the first exception ends the iteration.
\<close>

fun signInputs ::
  "'t prims \<Rightarrow> 'p psbtOps \<Rightarrow> 't hdstate \<Rightarrow> ToSignInput list \<Rightarrow> 'p \<Rightarrow> error option \<times> 'p" where
  "signInputs P T s [] psbt = (None, psbt)"
| "signInputs P T s (i # rest) psbt =
     (case findAccountByPk P (inputPublicKey i) s of
        Inl e \<Rightarrow> (Some e, psbt)
      | Inr account \<Rightarrow>
          (case signInput T psbt (inputIndex i) (ecPrivateKey account) (sighashTypes i) of
             (Some e, psbt') \<Rightarrow> (Some e, psbt')
           | (None, psbt') \<Rightarrow> signInputs P T s rest psbt'))"

definition signPsbt ::
  "'t prims \<Rightarrow> 'p psbtOps \<Rightarrow> 'p \<Rightarrow> ToSignInput list \<Rightarrow> 't hdstate \<Rightarrow> error option \<times> 'p" where
  "signPsbt P T psbt inputs s =
     (case signInputs P T s inputs psbt of
        (Some e, psbt') \<Rightarrow> (Some e, psbt')
      | (None, psbt') \<Rightarrow> finalizeAllInputs T psbt')"

text \<open>
  \<open>fromOptions\<close> is declared \<open>async\<close> and has no \<open>await\<close>: its body runs to the end, or to
  its first exception, before the call returns, and the exception becomes the rejection
  of the returned promise (\<open>Inl\<close>).
\<close>

definition fromOptions :: "'t prims \<Rightarrow> string \<Rightarrow> 't hdstate \<Rightarrow> (error + unit) \<times> 't hdstate" where
  "fromOptions P seedHex s =
     (let s1 = s\<lparr>childIndex := 0\<rparr> in
      case fromHex P seedHex of
        None \<Rightarrow> (Inl InvalidHex, s1)
      | Some sd \<Rightarrow>
          (let s2 = s1\<lparr>seed := Some sd, hdWallet := Some (fromMasterSeed P sd)\<rparr> in
           case derive P (fromMasterSeed P sd) (hdPath s2) of
             None \<Rightarrow> (Inl InvalidPath, s2)
           | Some r \<Rightarrow>
               (Inr (), s2\<lparr>root := Some r, publicKey := nodePublicKey r,
                          privateKey := nodePrivateKey r\<rparr>)))"

definition fromSeed :: "'t prims \<Rightarrow> bytes \<Rightarrow> 't hdstate \<Rightarrow> (error + unit) \<times> 't hdstate" where
  "fromSeed P sd s =
     (let s1 = s\<lparr>seed := Some sd, hdWallet := Some (fromMasterSeed P sd)\<rparr> in
      case derive P (fromMasterSeed P sd) (hdPath s1) of
        None \<Rightarrow> (Inl InvalidPath, s1)
      | Some r \<Rightarrow>
          (Inr (), s1\<lparr>root := Some r, privateKey := nodePrivateKey r,
                     publicKey := nodePublicKey r\<rparr>))"

text \<open>
  \<open>fromMnemonic\<close>: the call evaluates \<open>passphrase ?? "bells"\<close>, starts \<open>mnemonicToSeed\<close> and
  suspends at the \<open>await\<close>; nothing has been assigned when it returns its promise.
  \<open>resume\<close> is the rest of the body, run when the promise has settled.
\<close>

definition fromMnemonic :: "'t prims \<Rightarrow> string \<Rightarrow> string option \<Rightarrow> 't hdstate \<Rightarrow> 't hdstate" where
  "fromMnemonic P mnemonic passphrase s =
     s\<lparr>pending := pending s
          @ [AwaitSeed mnemonic (case passphrase of None \<Rightarrow> ''bells'' | Some p \<Rightarrow> p)]\<rparr>"

fun resume :: "'t prims \<Rightarrow> task \<Rightarrow> 't hdstate \<Rightarrow> (error + unit) \<times> 't hdstate" where
  "resume P (AwaitSeed mnemonic passphrase) s =
     (case mnemonicToSeed P mnemonic passphrase of
        None \<Rightarrow> (Inl InvalidMnemonic, s)
      | Some sd \<Rightarrow>
          (let s1 = s\<lparr>seed := Some sd, hdWallet := Some (fromMasterSeed P sd)\<rparr> in
           case derive P (fromMasterSeed P sd) (hdPath s1) of
             None \<Rightarrow> (Inl InvalidPath, s1)
           | Some r \<Rightarrow>
               (Inr (), s1\<lparr>root := Some r, publicKey := nodePublicKey r,
                          privateKey := nodePrivateKey r\<rparr>)))"

text \<open>The event loop taking the oldest suspended call and running it to its end.\<close>

definition runPending :: "'t prims \<Rightarrow> 't hdstate \<Rightarrow> (error + unit) \<times> 't hdstate" where
  "runPending P s =
     (case pending s of
        [] \<Rightarrow> (Inr (), s)
      | t # ts \<Rightarrow> resume P t (s\<lparr>pending := ts\<rparr>))"

text \<open>\<open>fromPhrase\<close> calls \<open>fromMnemonic\<close>, drops its promise and returns the instance.\<close>

definition fromPhrase :: "'t prims \<Rightarrow> string \<Rightarrow> 't hdstate \<Rightarrow> 't hdstate" where
  "fromPhrase P phrase s = fromMnemonic P phrase None s"

definition fromPhraseStatic :: "'t prims \<Rightarrow> string \<Rightarrow> 't hdstate" where
  "fromPhraseStatic P phrase = fromPhrase P phrase (newHDPrivateKey P)"

definition fromPrivateKey :: "bytes \<Rightarrow> 't hdstate \<Rightarrow> (error + unit) \<times> 't hdstate" where
  "fromPrivateKey key s = (Inl MethodNotAllowed, s)"

definition getChildCount :: "'t hdstate \<Rightarrow> int" where
  "getChildCount s = int (length (wallets s))"

text \<open>
  \<open>serialize\<close> reads the instance and returns it as it is. With no seed, \<open>toHex\<close> is applied
  to \<open>undefined\<close> and throws.
\<close>

definition serialize ::
  "'t prims \<Rightarrow> 't hdstate \<Rightarrow> (error + 't SerializedHDKey) \<times> 't hdstate" where
  "serialize P s =
     (if childIndex s \<noteq> 0 then (Inl NotRootWallet, s)
      else
        (case seed s of
           None \<Rightarrow> (Inl InvalidBytes, s)
         | Some sd \<Rightarrow>
             (Inr \<lparr> numberOfAccounts = Some (getChildCount s), serializedSeed = toHex P sd,
                    serializedAddressType = addressType s \<rparr>, s)))"

text \<open>
  The static \<open>deserialize\<close> builds a new instance; \<open>None\<close> is the non-termination of
  \<open>addAccounts\<close>.
\<close>

definition deserializeStatic ::
  "'t prims \<Rightarrow> 't SerializedHDKey \<Rightarrow> (error + 't hdstate) option" where
  "deserializeStatic P opts =
     (case numberOfAccounts opts of
        None \<Rightarrow> Some (Inl BadSerializedState)
      | Some n \<Rightarrow>
          if serializedSeed opts = [] then Some (Inl BadSerializedState)
          else
            (case fromHex P (serializedSeed opts) of
               None \<Rightarrow> Some (Inl InvalidHex)
             | Some sd \<Rightarrow>
                 (case fromSeed P sd (newHDPrivateKey P) of
                    (Inl e, _) \<Rightarrow> Some (Inl e)
                  | (Inr _, r0) \<Rightarrow>
                      (let r1 = r0\<lparr>addressType := serializedAddressType opts\<rparr> in
                       if n = 0 then Some (Inr r1)
                       else
                         (case addAccounts P n r1 of
                            None \<Rightarrow> None
                          | Some (Inl e, _) \<Rightarrow> Some (Inl e)
                          | Some (Inr _, r2) \<Rightarrow> Some (Inr r2))))))"

text \<open>
  The instance method: the state is deserialized into a second instance, of which only the
  seed is read; the receiver is re-initialised from that seed by \<open>fromOptions\<close>, whose
  promise is dropped.
\<close>

definition deserialize ::
  "'t prims \<Rightarrow> 't SerializedHDKey \<Rightarrow> 't hdstate \<Rightarrow> ((error + unit) \<times> 't hdstate) option" where
  "deserialize P state s =
     (case deserializeStatic P state of
        None \<Rightarrow> None
      | Some (Inl e) \<Rightarrow> Some (Inl e, s)
      | Some (Inr deserialized) \<Rightarrow>
          (case seed deserialized of
             None \<Rightarrow> Some (Inl InvalidBytes, s)
           | Some sd \<Rightarrow> Some (Inr (), snd (fromOptions P (toHex P sd) s))))"

section \<open>Sequences of calls\<close>

text \<open>
  Successive \<open>addAccounts\<close> calls on one instance; a call that throws leaves the instance as
  it is then, and the next call goes on from there.
\<close>

fun addAccountsMany :: "'t prims \<Rightarrow> int list \<Rightarrow> 't hdstate \<Rightarrow> 't hdstate option" where
  "addAccountsMany P [] s = Some s"
| "addAccountsMany P (n # ns) s =
     (case addAccounts P n s of
        None \<Rightarrow> None
      | Some (_, s') \<Rightarrow> addAccountsMany P ns s')"

section \<open>Predicates and closed forms used in the statements\<close>

text \<open>The key pair and the address of child \<open>i\<close> of root \<open>r\<close>, as \<open>_addressFromIndex\<close> builds them.\<close>

definition childPublicKey :: "'t prims \<Rightarrow> hdnode \<Rightarrow> nat \<Rightarrow> bytes" where
  "childPublicKey P r i = pointFromScalar P (nodePrivateKey (deriveChild P r i))"

definition childAddress :: "'t prims \<Rightarrow> 't option \<Rightarrow> hdnode \<Rightarrow> nat \<Rightarrow> string" where
  "childAddress P t r i = getAddress P t (childPublicKey P r i)"

definition childPair :: "'t prims \<Rightarrow> hdnode \<Rightarrow> nat \<Rightarrow> nat \<Rightarrow> ecpair" where
  "childPair P r base i =
     \<lparr> ecRef = base + i - 1, ecPrivateKey = nodePrivateKey (deriveChild P r i),
       ecPublicKey = childPublicKey P r i \<rparr>"

text \<open>
  The instance \<open>s\<close> after children \<open>1..k\<close> of \<open>r\<close> have been derived and registered, in
  this order, starting from an empty cache and registry.
\<close>

definition registered :: "'t prims \<Rightarrow> hdnode \<Rightarrow> 't hdstate \<Rightarrow> nat \<Rightarrow> 't hdstate" where
  "registered P r s k =
     s\<lparr>wallets := map (childPair P r (nextRef s)) [1..<Suc k],
       index2wallet :=
         (\<lambda>i. if 1 \<le> i \<and> i \<le> k
              then Some (childAddress P (addressType s) r i, childPair P r (nextRef s) i)
              else None),
       nextRef := nextRef s + k,
       derivLog := derivLog s @ [1..<Suc k]\<rparr>"

text \<open>The projection of the registry to key-pair values, without the object references.\<close>

definition walletKeys :: "'t hdstate \<Rightarrow> (bytes \<times> bytes) list" where
  "walletKeys s = map (\<lambda>w. (ecPrivateKey w, ecPublicKey w)) (wallets s)"

text \<open>
  The cache agrees with the derivation log: an index is cached exactly when it has been
  derived, and no index has been derived twice.
\<close>

definition cacheOK :: "'t hdstate \<Rightarrow> bool" where
  "cacheOK s \<longleftrightarrow> distinct (derivLog s) \<and> set (derivLog s) = dom (index2wallet s)"

text \<open>
  No object is registered twice, and every reference in use is below the next free one.
\<close>

definition registryOK :: "'t hdstate \<Rightarrow> bool" where
  "registryOK s \<longleftrightarrow>
     distinct (map ecRef (wallets s))
     \<and> list_all (\<lambda>w. ecRef w < nextRef s) (wallets s)
     \<and> ran (index2wallet s) \<subseteq> {e. ecRef (snd e) < nextRef s}"

text \<open>A descriptor is resolved when some registered key pair has its public key.\<close>

definition resolved :: "'t prims \<Rightarrow> 't hdstate \<Rightarrow> ToSignInput \<Rightarrow> bool" where
  "resolved P s d = list_ex (\<lambda>f. bufferHex P (ecPublicKey f) = inputPublicKey d) (wallets s)"

section \<open>A sample instantiation of the primitives\<close>

text \<open>
  Small executable stand-ins for the external libraries, on which the statements below are
  evaluated: a hexadecimal codec, and keys that are byte strings, a child key being its
  parent's key followed by the index, a public key the private key with every byte
  incremented.
\<close>

definition hexDigit :: "nat \<Rightarrow> char" where
  "hexDigit n = ''0123456789abcdef'' ! n"

definition bytesToHex :: "bytes \<Rightarrow> string" where
  "bytesToHex bs = concat (map (\<lambda>b. [hexDigit (unat b div 16), hexDigit (unat b mod 16)]) bs)"

definition hexValue :: "char \<Rightarrow> nat option" where
  "hexValue c =
     (let n = (of_char c :: nat) in
      if 48 \<le> n \<and> n \<le> 57 then Some (n - 48)
      else if 97 \<le> n \<and> n \<le> 102 then Some (n - 87)
      else if 65 \<le> n \<and> n \<le> 70 then Some (n - 55)
      else None)"

fun hexToBytes :: "string \<Rightarrow> bytes option" where
  "hexToBytes [] = Some []"
| "hexToBytes [c] = None"
| "hexToBytes (a # b # rest) =
     (case (hexValue a, hexValue b, hexToBytes rest) of
        (Some x, Some y, Some bs) \<Rightarrow> Some (of_nat (16 * x + y) # bs)
      | _ \<Rightarrow> None)"

definition keyNode :: "bytes \<Rightarrow> hdnode" where
  "keyNode k = \<lparr> nodePrivateKey = k, nodePublicKey = map (\<lambda>b. b + 1) k, nodeChainCode = [] \<rparr>"

definition samplePrims :: "nat prims" where
  "samplePrims =
     \<lparr> fromHex = hexToBytes, toHex = bytesToHex, bufferHex = bytesToHex,
       fromMasterSeed = keyNode,
       derive = (\<lambda>w path. if take 1 path = ''m''
                           then Some (keyNode (nodePrivateKey w @ map of_char (drop 1 path)))
                           else None),
       deriveChild = (\<lambda>r i. keyNode (nodePrivateKey r @ [of_nat i])),
       pointFromScalar = map (\<lambda>b. b + 1),
       getAddress = (\<lambda>t pk. (case t of None \<Rightarrow> ''D'' | Some n \<Rightarrow> ''T'') @ bytesToHex pk),
       messageSign = (\<lambda>text key. key @ text),
       messageVerify = (\<lambda>text address sig.
          case hexToBytes (take (length sig - length text) sig) of
            None \<Rightarrow> False
          | Some k \<Rightarrow> drop (length sig - length text) sig = text
                     \<and> drop 1 address = bytesToHex (map (\<lambda>b. b + 1) k)),
       mnemonicToSeed = (\<lambda>mnemonic passphrase.
          if mnemonic = [] then None else Some (map of_char (mnemonic @ passphrase))),
       ZERO_KEY = replicate 33 0, ZERO_PRIVKEY = replicate 32 0,
       initialAddressType = None \<rparr>"

text \<open>
  The same primitives with a child derivation in which index 1 gives no valid key and
  falls through to index 2, as the hdkey library does for an invalid child.
\<close>

definition collidingPrims :: "nat prims" where
  "collidingPrims =
     samplePrims\<lparr>deriveChild :=
       (\<lambda>r i. keyNode (nodePrivateKey r @ [of_nat (if i = 1 then 2 else i)]))\<rparr>"

text \<open>A wallet made from the two-byte seed 00 01, and the root its default path gives.\<close>

definition sampleSeed :: bytes where
  "sampleSeed = [0, 1]"

definition sampleRoot :: hdnode where
  "sampleRoot = keyNode (sampleSeed @ map of_char (drop 1 hdPathString))"

definition sampleWallet :: "nat hdstate" where
  "sampleWallet = snd (fromSeed samplePrims sampleSeed (newHDPrivateKey samplePrims))"

text \<open>A second derivation path, its root, and the sample wallet moved to it.\<close>

definition otherPath :: string where
  "otherPath = ''m/44'/3'/0'/0''"

definition otherRoot :: hdnode where
  "otherRoot = keyNode (sampleSeed @ map of_char (drop 1 otherPath))"

definition movedWallet :: "nat hdstate" where
  "movedWallet = snd (changeHdPath samplePrims otherPath sampleWallet)"

definition collidingWallet :: "nat hdstate" where
  "collidingWallet = snd (fromSeed collidingPrims sampleSeed (newHDPrivateKey collidingPrims))"

text \<open>
  A transaction container that records, for every input, the keys that signed it and
  whether it is finalized.
\<close>

record txInput =
  signedBy :: "bytes list"
  finalized :: bool

definition sampleSignInput ::
  "txInput list \<Rightarrow> int \<Rightarrow> bytes \<Rightarrow> int list option \<Rightarrow> error option \<times> txInput list" where
  "sampleSignInput tx i key sh =
     (if 0 \<le> i \<and> nat i < length tx
      then (None, tx[nat i := (tx ! nat i)\<lparr>signedBy := signedBy (tx ! nat i) @ [key]\<rparr>])
      else (Some PsbtError, tx))"

definition sampleFinalizeAllInputs :: "txInput list \<Rightarrow> error option \<times> txInput list" where
  "sampleFinalizeAllInputs tx =
     (if list_ex (\<lambda>i. signedBy i = []) tx then (Some PsbtError, tx)
      else (None, map (\<lambda>i. i\<lparr>finalized := True\<rparr>) tx))"

definition samplePsbt :: "txInput list psbtOps" where
  "samplePsbt = \<lparr> signInput = sampleSignInput, finalizeAllInputs = sampleFinalizeAllInputs \<rparr>"

text \<open>
  A transaction with two unsigned inputs, and two descriptors: the first names the public
  key of child 1 of the sample wallet, the second a key no wallet has.
\<close>

definition sampleTx :: "txInput list" where
  "sampleTx = [\<lparr> signedBy = [], finalized = False \<rparr>, \<lparr> signedBy = [], finalized = False \<rparr>]"

definition sampleInputs :: "ToSignInput list" where
  "sampleInputs =
     [\<lparr> inputIndex = 0, inputPublicKey = ''010230353528303128303128303102'',
        sighashTypes = None \<rparr>,
      \<lparr> inputIndex = 1, inputPublicKey = ''ff'', sighashTypes = None \<rparr>]"

section \<open>The loop of addAccounts on an instance with children 1..k registered\<close>

lemma addLoop_0: "addLoop P 0 i acc s = Some (Inr acc, s)"
  by (subst addLoop.simps) simp

lemma registered_0:
  assumes "wallets s = []" and "index2wallet s = Map.empty"
  shows "registered P r s 0 = s"
proof -
  have e: "(\<lambda>i::nat. if 1 \<le> i \<and> i \<le> 0 then Some (f i) else None) = Map.empty"
    for f :: "nat \<Rightarrow> string \<times> ecpair"
    by (simp add: fun_eq_iff)
  from assms show ?thesis
    unfolding registered_def e by simp
qed

lemma miss_registered:
  assumes "root s = Some r"
  shows "addressFromIndex P (Suc k) (registered P r s k) =
           (Inr (childAddress P (addressType s) r (Suc k), childPair P r (nextRef s) (Suc k)),
            (registered P r s (Suc k))\<lparr>wallets := wallets (registered P r s k)\<rparr>)"
  using assms
  by (auto simp add: addressFromIndex_def registered_def childPair_def childAddress_def
        childPublicKey_def Let_def fun_eq_iff)

lemma hit_registered:
  assumes "1 \<le> k"
  shows "addressFromIndex P k (registered P r s k) =
           (Inr (childAddress P (addressType s) r k, childPair P r (nextRef s) k),
            registered P r s k)"
  using assms by (simp add: addressFromIndex_def registered_def)

lemma includes_last:
  "1 \<le> k \<Longrightarrow> wallets_includes (wallets (registered P r s k)) (childPair P r (nextRef s) k)"
  by (auto simp add: wallets_includes_def registered_def image_iff)

lemma not_includes_next:
  "\<not> wallets_includes (wallets (registered P r s k)) (childPair P r (nextRef s) (Suc k))"
  by (auto simp add: wallets_includes_def registered_def childPair_def)

lemma push_registered:
  "(registered P r s (Suc k))
      \<lparr>wallets := wallets (registered P r s k) @ [childPair P r (nextRef s) (Suc k)]\<rparr>
     = registered P r s (Suc k)"
  by (simp add: registered_def)

lemma addLoop_miss_registered:
  assumes r: "root s = Some r"
  shows "addLoop P (int (Suc c)) (Suc k) acc (registered P r s k)
           = addLoop P (int c) (Suc k) (acc @ [childAddress P (addressType s) r (Suc k)])
               (registered P r s (Suc k))"
  by (subst addLoop.simps)
     (simp add: miss_registered [OF r] not_includes_next push_registered del: upt_Suc)

lemma addLoop_registered:
  assumes r: "root s = Some r" and k: "1 \<le> k"
  shows "addLoop P (int c) k acc (registered P r s k) =
           Some (Inr (acc @ map (childAddress P (addressType s) r) [Suc k..<Suc (k + c)]),
                 registered P r s (k + c))"
  using k
proof (induction c arbitrary: k acc)
  case 0
  then show ?case by (simp add: addLoop_0)
next
  case (Suc c)
  have "addLoop P (int (Suc c)) k acc (registered P r s k)
          = addLoop P (int (Suc c)) (Suc k) acc (registered P r s k)"
    by (subst addLoop.simps)
       (simp add: hit_registered [OF Suc.prems] includes_last [OF Suc.prems])
  also have "\<dots> = addLoop P (int c) (Suc k) (acc @ [childAddress P (addressType s) r (Suc k)])
                      (registered P r s (Suc k))"
    by (rule addLoop_miss_registered [OF r])
  also have "\<dots> = Some (Inr ((acc @ [childAddress P (addressType s) r (Suc k)])
                        @ map (childAddress P (addressType s) r) [Suc (Suc k)..<Suc (Suc k + c)]),
                 registered P r s (Suc k + c))"
    by (rule Suc.IH) simp
  finally show ?case
    by (simp add: upt_conv_Cons del: upt_Suc)
qed

lemma length_wallets_registered: "length (wallets (registered P r s k)) = k"
  by (simp add: registered_def)

lemma addAccounts_registered:
  assumes r: "root s = Some r" and w: "wallets s = []" and c: "index2wallet s = Map.empty"
  shows "addAccounts P (int m) (registered P r s k) =
           Some (Inr (map (childAddress P (addressType s) r) [Suc k..<Suc (k + m)]),
                 registered P r s (k + m))"
proof (cases k)
  case 0
  show ?thesis
  proof (cases m)
    case z: 0
    with 0 show ?thesis
      by (simp add: addAccounts_def addLoop_0)
  next
    case (Suc c)
    have "addAccounts P (int m) (registered P r s k)
            = addLoop P (int (Suc c)) (Suc 0) [] (registered P r s 0)"
      using 0 Suc by (simp add: addAccounts_def length_wallets_registered)
    also have "\<dots> = addLoop P (int c) (Suc 0) ([] @ [childAddress P (addressType s) r (Suc 0)])
                        (registered P r s (Suc 0))"
      by (rule addLoop_miss_registered [OF r])
    also have "\<dots> = Some (Inr (([] @ [childAddress P (addressType s) r (Suc 0)])
                         @ map (childAddress P (addressType s) r) [Suc (Suc 0)..<Suc (Suc 0 + c)]),
                       registered P r s (Suc 0 + c))"
      by (rule addLoop_registered [OF r]) simp
    finally show ?thesis
      using 0 Suc by (simp add: upt_conv_Cons del: upt_Suc)
  qed
next
  case (Suc j)
  then have "addAccounts P (int m) (registered P r s k)
               = addLoop P (int m) k [] (registered P r s k)"
    by (simp add: addAccounts_def length_wallets_registered)
  also have "\<dots> = Some (Inr ([] @ map (childAddress P (addressType s) r) [Suc k..<Suc (k + m)]),
                      registered P r s (k + m))"
    by (rule addLoop_registered [OF r]) (simp add: Suc)
  finally show ?thesis by simp
qed

lemma addAccounts_fresh:
  assumes r: "root s = Some r" and w: "wallets s = []" and c: "index2wallet s = Map.empty"
  shows "addAccounts P (int n) s =
           Some (Inr (map (childAddress P (addressType s) r) [1..<Suc n]), registered P r s n)"
  using addAccounts_registered [OF r w c, of P n 0] registered_0 [OF w c, of P r]
  by simp

lemma addAccountsMany_registered:
  assumes r: "root s = Some r" and w: "wallets s = []" and c: "index2wallet s = Map.empty"
  shows "addAccountsMany P (map int ns) (registered P r s k) =
           Some (registered P r s (k + sum_list ns))"
proof (induction ns arbitrary: k)
  case Nil
  then show ?case by simp
next
  case (Cons n ns)
  show ?case
    by (simp add: addAccounts_registered [OF r w c] Cons.IH add.assoc)
qed

lemma getAccounts_registered:
  "getAccounts P (registered P r s k) =
     getAddress P (addressType s) (publicKey s)
       # map (childAddress P (addressType s) r) [1..<Suc k]"
  by (simp add: getAccounts_def registered_def childPair_def childAddress_def o_def del: upt_Suc)

section \<open>Instances made by fromSeed\<close>

lemma fromSeed_new:
  assumes "derive P (fromMasterSeed P sd) hdPathString = Some r"
  shows "fromSeed P sd (newHDPrivateKey P) =
           (Inr (), (newHDPrivateKey P)\<lparr>seed := Some sd, hdWallet := Some (fromMasterSeed P sd),
                       root := Some r, privateKey := nodePrivateKey r,
                       publicKey := nodePublicKey r\<rparr>)"
  using assms by (simp add: fromSeed_def newHDPrivateKey_def)

lemma sampleWallet_eq:
  "sampleWallet =
     (newHDPrivateKey samplePrims)\<lparr>seed := Some sampleSeed, hdWallet := Some (keyNode sampleSeed),
        root := Some sampleRoot, privateKey := nodePrivateKey sampleRoot,
        publicKey := nodePublicKey sampleRoot\<rparr>"
  by (simp add: sampleWallet_def fromSeed_def newHDPrivateKey_def samplePrims_def sampleRoot_def
        hdPathString_def keyNode_def)

lemma sampleWallet_fresh:
  "root sampleWallet = Some sampleRoot" "wallets sampleWallet = []"
  "index2wallet sampleWallet = Map.empty" "addressType sampleWallet = None"
  "nextRef sampleWallet = 0" "childIndex sampleWallet = 0" "seed sampleWallet = Some sampleSeed"
  by (simp_all add: sampleWallet_eq newHDPrivateKey_def samplePrims_def)

lemma sample_childAddress:
  "childAddress samplePrims None sampleRoot i =
     ''D'' @ bytesToHex (map (\<lambda>b. b + 1) (nodePrivateKey sampleRoot @ [of_nat i]))"
  by (simp add: childAddress_def childPublicKey_def samplePrims_def keyNode_def)

section \<open>C1: addAccounts on a fresh instance, and again\<close>

text \<open>
  C1. On an instance with a root, an empty registry and an empty cache, \<open>addAccounts(n)\<close>
  with \<open>n \<ge> 1\<close> returns the addresses of the children 1..n in this order and registers
  them; a following \<open>addAccounts(m)\<close> with \<open>m \<ge> 1\<close> returns the addresses of the children
  n+1..n+m, so that no index is used twice; \<open>getAccounts()\<close> has the root entry and one
  entry for each registered child, so its length grows by n and then by m; and when the
  addresses of the children 1..n+m do not collide, the n+m returned addresses are distinct.
\<close>

theorem addAccounts_continues_index_sequence:
  assumes "root s = Some r" and "wallets s = []" and "index2wallet s = Map.empty"
    and "1 \<le> n" and "1 \<le> m"
  shows "addAccounts P (int n) s =
           Some (Inr (map (childAddress P (addressType s) r) [1..<Suc n]), registered P r s n)
       \<and> addAccounts P (int m) (registered P r s n) =
           Some (Inr (map (childAddress P (addressType s) r) [Suc n..<Suc (n + m)]),
                 registered P r s (n + m))
       \<and> length (map (childAddress P (addressType s) r) [1..<Suc n]) = n
       \<and> length (map (childAddress P (addressType s) r) [Suc n..<Suc (n + m)]) = m
       \<and> length (getAccounts P s) = 1
       \<and> length (getAccounts P (registered P r s n)) = 1 + n
       \<and> length (getAccounts P (registered P r s (n + m)))
           = length (getAccounts P (registered P r s n)) + m
       \<and> (inj_on (childAddress P (addressType s) r) {1..n + m} \<longrightarrow>
            distinct (map (childAddress P (addressType s) r) [1..<Suc n]
                      @ map (childAddress P (addressType s) r) [Suc n..<Suc (n + m)]))"
proof -
  have a: "addAccounts P (int n) s =
           Some (Inr (map (childAddress P (addressType s) r) [1..<Suc n]), registered P r s n)"
    by (rule addAccounts_fresh [OF assms(1-3)])
  have b: "addAccounts P (int m) (registered P r s n) =
           Some (Inr (map (childAddress P (addressType s) r) [Suc n..<Suc (n + m)]),
                 registered P r s (n + m))"
    by (rule addAccounts_registered [OF assms(1-3)])
  have l0: "length (getAccounts P s) = 1"
    using assms(2) by (simp add: getAccounts_def)
  have l: "length (getAccounts P (registered P r s k)) = 1 + k" for k
    by (simp add: getAccounts_registered del: upt_Suc)
  have d: "distinct (map (childAddress P (addressType s) r) [1..<Suc n]
                      @ map (childAddress P (addressType s) r) [Suc n..<Suc (n + m)])"
    if inj: "inj_on (childAddress P (addressType s) r) {1..n + m}"
  proof -
    have "[1..<Suc n] @ [Suc n..<Suc (n + m)] = [1..<Suc (n + m)]"
      using upt_add_eq_append [of 1 "Suc n" m] by simp
    then have "map (childAddress P (addressType s) r) [1..<Suc n]
                 @ map (childAddress P (addressType s) r) [Suc n..<Suc (n + m)]
               = map (childAddress P (addressType s) r) [1..<Suc (n + m)]"
      by (metis map_append)
    moreover have "set [1..<Suc (n + m)] = {1..n + m}"
      by auto
    ultimately show ?thesis
      using inj by (simp add: distinct_map del: upt_Suc)
  qed
  show ?thesis
    using a b l0 l [of n] l [of "n + m"] d
    by (simp del: upt_Suc)
qed

lemma sample_addresses:
  "map (childAddress samplePrims None sampleRoot) [1..<Suc 2]
     = [''D010230353528303128303128303102'', ''D010230353528303128303128303103'']"
  "map (childAddress samplePrims None sampleRoot) [Suc 2..<Suc (2 + 1)]
     = [''D010230353528303128303128303104'']"
  by code_simp+

lemma sample_inj: "inj_on (childAddress samplePrims None sampleRoot) {1..2 + 1}"
proof -
  have "{1..2 + 1} = {1, 2, 3::nat}" by auto
  moreover have "distinct (map (childAddress samplePrims None sampleRoot) [1, 2, 3])"
    by code_simp
  ultimately show ?thesis
    by (simp add: inj_on_def) metis
qed

theorem addAccounts_continues_index_sequence_witness:
  "root sampleWallet = Some sampleRoot \<and> wallets sampleWallet = []
   \<and> index2wallet sampleWallet = Map.empty
   \<and> inj_on (childAddress samplePrims None sampleRoot) {1..2 + 1}
   \<and> addAccounts samplePrims 2 sampleWallet =
        Some (Inr [''D010230353528303128303128303102'', ''D010230353528303128303128303103''],
              registered samplePrims sampleRoot sampleWallet 2)
   \<and> addAccounts samplePrims 1 (registered samplePrims sampleRoot sampleWallet 2) =
        Some (Inr [''D010230353528303128303128303104''],
              registered samplePrims sampleRoot sampleWallet 3)
   \<and> length (getAccounts samplePrims (registered samplePrims sampleRoot sampleWallet 3))
        = length (getAccounts samplePrims (registered samplePrims sampleRoot sampleWallet 2)) + 1
   \<and> distinct [''D010230353528303128303128303102'', ''D010230353528303128303128303103'',
                ''D010230353528303128303128303104'']"
  using addAccounts_continues_index_sequence
          [of sampleWallet sampleRoot 2 1 samplePrims, OF sampleWallet_fresh(1-3)]
        sample_inj
  by (simp only: sampleWallet_fresh sample_addresses) simp

section \<open>C7: the guard of serialize\<close>

text \<open>
  C7. On an instance whose \<open>childIndex\<close> is not 0, \<open>serialize\<close> throws "You should use only
  root wallet to serializing" and leaves the instance as it was; on an instance with
  \<open>childIndex\<close> 0 and a seed, it returns the number of registered accounts, the seed in
  hexadecimal and the address type, without an error, and leaves the instance as it was.
\<close>

theorem serialize_only_from_root:
  "(childIndex s \<noteq> 0 \<longrightarrow> serialize P s = (Inl NotRootWallet, s))
   \<and> (childIndex s = 0 \<and> seed s = Some sd \<longrightarrow>
        serialize P s =
          (Inr \<lparr> numberOfAccounts = Some (int (length (wallets s))),
                 serializedSeed = toHex P sd,
                 serializedAddressType = addressType s \<rparr>, s))"
  by (simp add: serialize_def getChildCount_def)

theorem serialize_only_from_root_witness:
  "childIndex (sampleWallet\<lparr>childIndex := 3\<rparr>) \<noteq> 0
   \<and> serialize samplePrims (sampleWallet\<lparr>childIndex := 3\<rparr>)
       = (Inl NotRootWallet, sampleWallet\<lparr>childIndex := 3\<rparr>)
   \<and> childIndex sampleWallet = 0 \<and> seed sampleWallet = Some sampleSeed
   \<and> serialize samplePrims sampleWallet
       = (Inr \<lparr> numberOfAccounts = Some 0, serializedSeed = ''0001'',
                serializedAddressType = None \<rparr>, sampleWallet)"
proof -
  have hex: "toHex samplePrims sampleSeed = ''0001''"
    by code_simp
  show ?thesis
    using serialize_only_from_root [of "sampleWallet\<lparr>childIndex := 3\<rparr>" samplePrims sampleSeed]
          serialize_only_from_root [of sampleWallet samplePrims sampleSeed]
    by (simp add: sampleWallet_fresh hex)
qed

section \<open>C10: fromPhrase returns before the seed exists\<close>

text \<open>
  C10. \<open>HDPrivateKey.fromPhrase(phrase)\<close> returns the new instance while \<open>fromMnemonic\<close> is
  suspended at its \<open>await\<close>: the seed is unset, there is no root, \<open>privateKey\<close> and
  \<open>publicKey\<close> are \<open>ZERO_PRIVKEY\<close> and \<open>ZERO_KEY\<close>, and the continuation that will assign
  them, with the default passphrase "bells", is still pending. The method \<open>fromPhrase\<close> of
  any instance returns it with seed, root and keys as they were.
\<close>

theorem fromPhrase_returns_before_seed_is_set:
  "seed (fromPhraseStatic P phrase) = None
   \<and> hdWallet (fromPhraseStatic P phrase) = None
   \<and> root (fromPhraseStatic P phrase) = None
   \<and> privateKey (fromPhraseStatic P phrase) = ZERO_PRIVKEY P
   \<and> publicKey (fromPhraseStatic P phrase) = ZERO_KEY P
   \<and> pending (fromPhraseStatic P phrase) = [AwaitSeed phrase ''bells'']
   \<and> seed (fromPhrase P phrase s) = seed s
   \<and> root (fromPhrase P phrase s) = root s
   \<and> privateKey (fromPhrase P phrase s) = privateKey s
   \<and> publicKey (fromPhrase P phrase s) = publicKey s
   \<and> pending (fromPhrase P phrase s) = pending s @ [AwaitSeed phrase ''bells'']"
  by (simp add: fromPhraseStatic_def fromPhrase_def fromMnemonic_def newHDPrivateKey_def)

text \<open>What the pending continuation does once it runs: the keys come from the mnemonic's seed.\<close>

lemma fromPhrase_then_runPending:
  assumes "mnemonicToSeed P phrase ''bells'' = Some sd"
    and "derive P (fromMasterSeed P sd) hdPathString = Some r"
  shows "runPending P (fromPhraseStatic P phrase) =
           (Inr (), (newHDPrivateKey P)\<lparr>seed := Some sd, hdWallet := Some (fromMasterSeed P sd),
                       root := Some r, publicKey := nodePublicKey r,
                       privateKey := nodePrivateKey r\<rparr>)"
  using assms
  by (simp add: runPending_def fromPhraseStatic_def fromPhrase_def fromMnemonic_def
        newHDPrivateKey_def)

section \<open>C9: the instance method deserialize\<close>

lemma fromSeed_new_fresh:
  assumes "derive P (fromMasterSeed P sd) hdPathString = Some r"
  shows "fst (fromSeed P sd (newHDPrivateKey P)) = Inr ()"
    and "root (snd (fromSeed P sd (newHDPrivateKey P))) = Some r"
    and "wallets (snd (fromSeed P sd (newHDPrivateKey P))) = []"
    and "index2wallet (snd (fromSeed P sd (newHDPrivateKey P))) = Map.empty"
    and "seed (snd (fromSeed P sd (newHDPrivateKey P))) = Some sd"
    and "publicKey (snd (fromSeed P sd (newHDPrivateKey P))) = nodePublicKey r"
    and "childIndex (snd (fromSeed P sd (newHDPrivateKey P))) = 0"
    and "nextRef (snd (fromSeed P sd (newHDPrivateKey P))) = 0"
  unfolding fromSeed_new [OF assms] by (simp_all add: newHDPrivateKey_def)

text \<open>
  The static \<open>deserialize\<close> on a state with a number of accounts, a non-empty seed string
  that decodes, and a derivable default path: a new instance with the address type of the
  state and the children 1..k registered.
\<close>

lemma deserializeStatic_ok:
  assumes n: "numberOfAccounts st = Some (int k)"
    and ne: "serializedSeed st \<noteq> []"
    and hex: "fromHex P (serializedSeed st) = Some sd"
    and r: "derive P (fromMasterSeed P sd) hdPathString = Some r"
  shows "deserializeStatic P st =
           Some (Inr (registered P r
                  ((snd (fromSeed P sd (newHDPrivateKey P)))
                      \<lparr>addressType := serializedAddressType st\<rparr>) k))"
proof -
  let ?r1 = "(snd (fromSeed P sd (newHDPrivateKey P)))\<lparr>addressType := serializedAddressType st\<rparr>"
  have f: "root ?r1 = Some r" "wallets ?r1 = []" "index2wallet ?r1 = Map.empty"
    by (simp_all add: fromSeed_new_fresh [OF r])
  have fs: "fromSeed P sd (newHDPrivateKey P) = (Inr (), snd (fromSeed P sd (newHDPrivateKey P)))"
    using fromSeed_new_fresh(1) [OF r] by (metis prod.collapse)
  show ?thesis
  proof (cases "k = 0")
    case True
    have "deserializeStatic P st = Some (Inr ?r1)"
      unfolding deserializeStatic_def n using ne hex True
      by (simp add: Let_def) (subst fs, simp)
    then show ?thesis
      using True registered_0 [OF f(2,3)] by simp
  next
    case False
    have "deserializeStatic P st =
            (case addAccounts P (int k) ?r1 of
               None \<Rightarrow> None
             | Some (Inl e, _) \<Rightarrow> Some (Inl e)
             | Some (Inr _, r2) \<Rightarrow> Some (Inr r2))"
      unfolding deserializeStatic_def n using ne hex False
      by (simp add: Let_def) (subst fs, simp)
    then show ?thesis
      by (simp add: addAccounts_fresh [OF f])
  qed
qed

text \<open>On any receiver, the instance method leaves registry, cache and address type alone.\<close>

lemma deserialize_keeps_registry:
  assumes "deserialize P st s = Some (res, s')"
  shows "wallets s' = wallets s \<and> index2wallet s' = index2wallet s
       \<and> addressType s' = addressType s"
  using assms
  by (auto simp add: deserialize_def fromOptions_def Let_def split: option.splits sum.splits)

text \<open>
  C9. Called on a newly constructed instance with a state whose seed string is non-empty
  and decodes, whose number of accounts is \<open>k \<ge> 1\<close> and whose address type is any tag,
  the instance method \<open>deserialize\<close> returns the receiver re-initialised by \<open>fromOptions\<close>
  from the seed alone: it has no registered account and the initial address type of a new
  instance, whatever \<open>k\<close> and the tag are.
\<close>

theorem deserialize_instance_keeps_only_seed:
  assumes "numberOfAccounts st = Some (int k)" and "1 \<le> k"
    and "serializedSeed st \<noteq> []"
    and "fromHex P (serializedSeed st) = Some sd"
    and "derive P (fromMasterSeed P sd) hdPathString = Some r"
  shows "deserialize P st (newHDPrivateKey P) =
           Some (Inr (), snd (fromOptions P (toHex P sd) (newHDPrivateKey P)))
       \<and> wallets (snd (fromOptions P (toHex P sd) (newHDPrivateKey P))) = []
       \<and> index2wallet (snd (fromOptions P (toHex P sd) (newHDPrivateKey P))) = Map.empty
       \<and> addressType (snd (fromOptions P (toHex P sd) (newHDPrivateKey P)))
           = initialAddressType P"
proof -
  have "deserialize P st (newHDPrivateKey P) =
           Some (Inr (), snd (fromOptions P (toHex P sd) (newHDPrivateKey P)))"
    unfolding deserialize_def deserializeStatic_ok [OF assms(1,3,4,5)]
    by (simp add: registered_def fromSeed_new_fresh [OF assms(5)])
  moreover have "wallets (snd (fromOptions P h s)) = wallets s
      \<and> index2wallet (snd (fromOptions P h s)) = index2wallet s
      \<and> addressType (snd (fromOptions P h s)) = addressType s" for h and s :: "'a hdstate"
    by (simp add: fromOptions_def Let_def split: option.splits)
  ultimately show ?thesis
    by (simp add: newHDPrivateKey_def)
qed

lemma sample_codec:
  "fromHex samplePrims ''0001'' = Some sampleSeed" "toHex samplePrims sampleSeed = ''0001''"
  by code_simp+

lemma sample_derive:
  "derive samplePrims (fromMasterSeed samplePrims sampleSeed) hdPathString = Some sampleRoot"
  by (simp add: samplePrims_def sampleRoot_def hdPathString_def keyNode_def)

lemma sample_fromOptions:
  "snd (fromOptions samplePrims ''0001'' (newHDPrivateKey samplePrims)) = sampleWallet"
  unfolding fromOptions_def sample_codec sampleWallet_def fromSeed_def
  by (simp add: Let_def newHDPrivateKey_def sample_derive)

theorem deserialize_instance_keeps_only_seed_witness:
  "numberOfAccounts \<lparr> numberOfAccounts = Some (int 2), serializedSeed = ''0001'',
                      serializedAddressType = Some (5::nat) \<rparr> = Some (int 2)
   \<and> (1::nat) \<le> 2
   \<and> fromHex samplePrims ''0001'' = Some sampleSeed
   \<and> derive samplePrims (fromMasterSeed samplePrims sampleSeed) hdPathString = Some sampleRoot
   \<and> deserialize samplePrims
        \<lparr> numberOfAccounts = Some (int 2), serializedSeed = ''0001'',
          serializedAddressType = Some 5 \<rparr> (newHDPrivateKey samplePrims)
       = Some (Inr (), sampleWallet)
   \<and> wallets sampleWallet = [] \<and> addressType sampleWallet = initialAddressType samplePrims"
  using deserialize_instance_keeps_only_seed
          [of "\<lparr> numberOfAccounts = Some (int 2), serializedSeed = ''0001'',
                 serializedAddressType = Some (5::nat) \<rparr>" 2 samplePrims sampleSeed sampleRoot]
  by (simp add: sample_codec sample_derive sample_fromOptions)

section \<open>Invariants of the addAccounts loop\<close>

text \<open>
  A property of instances is kept by the loop when every \<open>_addressFromIndex\<close> call keeps
  it, and registering the looked-up key pair, when the registry does not include it,
  keeps it as well. The loop is a partial function, so this is by the induction rule of its
  definition and speaks of the runs that return.
\<close>

lemma addLoop_invariant:
  assumes run: "addLoop P c i acc s = Some y"
    and inv: "I s"
    and look: "\<And>i s. I s \<Longrightarrow> I (snd (addressFromIndex P i s))"
    and push: "\<And>i s a w s1. I s \<Longrightarrow> addressFromIndex P i s = (Inr (a, w), s1) \<Longrightarrow>
                 \<not> wallets_includes (wallets s1) w \<Longrightarrow> I (s1\<lparr>wallets := wallets s1 @ [w]\<rparr>)"
  shows "I (snd y)"
proof -
  let ?Q = "\<lambda>x y. fst (fst (fst (fst x))) = P \<longrightarrow> I (snd x) \<longrightarrow> I (snd y)"
  have "?Q ((((P, c), i), acc), s) y"
  proof (rule addLoop.raw_induct [where Pa = ?Q, OF _ run])
    fix f :: "'a prims \<Rightarrow> int \<Rightarrow> nat \<Rightarrow> string list \<Rightarrow> 'a hdstate
                \<Rightarrow> ((error + string list) \<times> 'a hdstate) option"
    fix P' c i acc s y
    assume IH: "\<And>P c i acc s y. f P c i acc s = Some y \<Longrightarrow> ?Q ((((P, c), i), acc), s) y"
    assume eq: "(if c = 0 then Some (Inr acc, s)
      else case addressFromIndex P' i s of
           (Inl e, s') \<Rightarrow> Some (Inl e, s')
           | (Inr (address, wallet), s') \<Rightarrow>
               if wallets_includes (wallets s') wallet
               then f P' c (i + 1) acc s'
               else f P' (c - 1) i (acc @ [address])
                     (s'\<lparr>wallets := wallets s' @ [wallet]\<rparr>)) = Some y"
    show "?Q ((((P', c), i), acc), s) y"
    proof (intro impI)
      assume "fst (fst (fst (fst ((((P', c), i), acc), s)))) = P"
        and "I (snd ((((P', c), i), acc), s))"
      then have P': "P' = P" and ok: "I s" by simp_all
      show "I (snd y)"
      proof (cases "c = 0")
        case True
        with eq ok show ?thesis by auto
      next
        case False
        obtain r s1 where a: "addressFromIndex P i s = (r, s1)"
          by (cases "addressFromIndex P i s")
        have ok1: "I s1" using look [OF ok, of i] a by simp
        show ?thesis
        proof (cases r)
          case (Inl e)
          with eq False a ok1 P' show ?thesis by auto
        next
          case (Inr aw)
          obtain ad w where aw: "aw = (ad, w)" by (cases aw)
          show ?thesis
          proof (cases "wallets_includes (wallets s1) w")
            case True
            with eq False a Inr aw P' have "f P c (i + 1) acc s1 = Some y" by simp
            from IH [OF this] ok1 show ?thesis by simp
          next
            case nin: False
            with eq False a Inr aw P'
            have "f P (c - 1) i (acc @ [ad]) (s1\<lparr>wallets := wallets s1 @ [w]\<rparr>) = Some y"
              by simp
            moreover have "I (s1\<lparr>wallets := wallets s1 @ [w]\<rparr>)"
              using push [OF ok _ nin] a Inr aw by simp
            ultimately show ?thesis using IH by simp
          qed
        qed
      qed
    qed
  qed
  with inv show ?thesis by simp
qed

lemma addAccounts_invariant:
  assumes run: "addAccounts P n s = Some y"
    and inv: "I s"
    and look: "\<And>i s. I s \<Longrightarrow> I (snd (addressFromIndex P i s))"
    and push: "\<And>i s a w s1. I s \<Longrightarrow> addressFromIndex P i s = (Inr (a, w), s1) \<Longrightarrow>
                 \<not> wallets_includes (wallets s1) w \<Longrightarrow> I (s1\<lparr>wallets := wallets s1 @ [w]\<rparr>)"
  shows "I (snd y)"
  using run unfolding addAccounts_def
  by (rule addLoop_invariant [where I = I, OF _ inv look push])

text \<open>
  With a root, no lookup throws, and a negative count stays negative: the loop does not
  return.
\<close>

lemma addressFromIndex_root:
  "root (snd (addressFromIndex P i s)) = root s"
  by (simp add: addressFromIndex_def Let_def split: option.splits)

lemma addressFromIndex_with_root:
  "root s = Some r \<Longrightarrow> \<exists>e. fst (addressFromIndex P i s) = Inr e"
  by (simp add: addressFromIndex_def Let_def split: option.splits)

lemma addLoop_negative_diverges:
  assumes "c < 0" and "root s = Some r"
  shows "addLoop P c i acc s = None"
proof (rule ccontr)
  assume "addLoop P c i acc s \<noteq> None"
  then obtain y where run: "addLoop P c i acc s = Some y" by auto
  let ?Q = "\<lambda>x (y :: (error + string list) \<times> 'a hdstate).
              \<not> (snd (fst (fst (fst x))) < 0 \<and> root (snd x) \<noteq> None)"
  have "?Q ((((P, c), i), acc), s) y"
  proof (rule addLoop.raw_induct [where Pa = ?Q, OF _ run])
    fix f :: "'a prims \<Rightarrow> int \<Rightarrow> nat \<Rightarrow> string list \<Rightarrow> 'a hdstate
                \<Rightarrow> ((error + string list) \<times> 'a hdstate) option"
    fix P c i acc s y
    assume IH: "\<And>P c i acc s y. f P c i acc s = Some y \<Longrightarrow> ?Q ((((P, c), i), acc), s) y"
    assume eq: "(if c = 0 then Some (Inr acc, s)
      else case addressFromIndex P i s of
           (Inl e, s') \<Rightarrow> Some (Inl e, s')
           | (Inr (address, wallet), s') \<Rightarrow>
               if wallets_includes (wallets s') wallet
               then f P c (i + 1) acc s'
               else f P (c - 1) i (acc @ [address])
                     (s'\<lparr>wallets := wallets s' @ [wallet]\<rparr>)) = Some y"
    show "?Q ((((P, c), i), acc), s) y"
    proof
      assume "snd (fst (fst (fst ((((P, c), i), acc), s)))) < 0
                \<and> root (snd ((((P, c), i), acc), s)) \<noteq> None"
      then have neg: "c < 0" and rt: "root s \<noteq> None" by simp_all
      obtain res s1 where a: "addressFromIndex P i s = (res, s1)"
        by (cases "addressFromIndex P i s")
      from rt obtain e where "res = Inr e"
        using addressFromIndex_with_root [of s _ P i] a by auto
      then obtain ad w where res: "res = Inr (ad, w)" by (cases e) auto
      have rt1: "root s1 \<noteq> None"
        using addressFromIndex_root [of P i s] a rt by simp
      show False
      proof (cases "wallets_includes (wallets s1) w")
        case True
        with eq neg a res have "f P c (i + 1) acc s1 = Some y" by simp
        from IH [OF this] neg rt1 show False by simp
      next
        case False
        with eq neg a res
        have "f P (c - 1) i (acc @ [ad]) (s1\<lparr>wallets := wallets s1 @ [w]\<rparr>) = Some y" by simp
        from IH [OF this] neg rt1 show False by simp
      qed
    qed
  qed
  with assms show False by simp
qed

lemma addAccounts_negative_diverges:
  "n < 0 \<Longrightarrow> root s = Some r \<Longrightarrow> addAccounts P n s = None"
  by (simp add: addAccounts_def addLoop_negative_diverges)

section \<open>C8: the cache derives every index at most once\<close>

lemma addressFromIndex_hit:
  "index2wallet s i = Some e \<Longrightarrow> addressFromIndex P i s = (Inr e, s)"
  by (simp add: addressFromIndex_def)

lemma addressFromIndex_cacheOK:
  "cacheOK s \<Longrightarrow> cacheOK (snd (addressFromIndex P i s))"
  by (auto simp add: cacheOK_def addressFromIndex_def Let_def split: option.splits)

lemma addressFromIndex_twice:
  "addressFromIndex P i (snd (addressFromIndex P i s)) = addressFromIndex P i s"
  by (simp add: addressFromIndex_def Let_def split: option.splits)

lemma addressFromIndex_keeps_entries:
  "index2wallet s \<subseteq>\<^sub>m index2wallet (snd (addressFromIndex P i s))"
  by (auto simp add: addressFromIndex_def Let_def map_le_def split: option.splits)

lemma distinct_count_le_1: "distinct xs \<Longrightarrow> count_list xs x \<le> 1"
  by (induction xs) auto

lemma cacheOK_wallets: "cacheOK (s\<lparr>wallets := ws\<rparr>) = cacheOK s"
  by (simp add: cacheOK_def)

lemma newHDPrivateKey_cacheOK: "cacheOK (newHDPrivateKey P)"
  by (simp add: cacheOK_def newHDPrivateKey_def)

lemma changeHdPath_cacheOK: "cacheOK s \<Longrightarrow> cacheOK (snd (changeHdPath P path s))"
  by (simp add: cacheOK_def changeHdPath_def Let_def split: option.splits)

lemma changeHdPath_empties_cache:
  "fst (changeHdPath P path s) = Inr () \<Longrightarrow>
     index2wallet (snd (changeHdPath P path s)) = Map.empty
     \<and> derivLog (snd (changeHdPath P path s)) = []"
  by (simp add: changeHdPath_def Let_def split: option.splits)

lemma addAccounts_cacheOK:
  assumes "addAccounts P n s = Some (res, s')" and "cacheOK s"
  shows "cacheOK s'"
proof -
  have "cacheOK (snd (res, s'))"
  proof (rule addAccounts_invariant [where I = cacheOK, OF assms])
    fix i and s :: "'a hdstate"
    assume "cacheOK s"
    then show "cacheOK (snd (addressFromIndex P i s))"
      by (rule addressFromIndex_cacheOK)
  next
    fix i a w and s s1 :: "'a hdstate"
    assume "cacheOK s" and "addressFromIndex P i s = (Inr (a, w), s1)"
    then have "cacheOK s1"
      using addressFromIndex_cacheOK [of s P i] by simp
    then show "cacheOK (s1\<lparr>wallets := wallets s1 @ [w]\<rparr>)"
      by (simp add: cacheOK_wallets)
  qed
  then show ?thesis by simp
qed

text \<open>
  C8. In an instance whose cache agrees with the derivation log, a lookup of index \<open>i\<close>
  that finds an entry returns it and changes nothing, so nothing is derived; any lookup
  leaves the cache in agreement with the log, in which \<open>i\<close> then occurs at most once;
  it removes or changes no entry; and the same lookup again returns the same result and
  changes nothing. The agreement holds on a new instance and is kept by \<open>addAccounts\<close> and
  \<open>changeHdPath\<close>, which empties cache and log together
  (\<open>newHDPrivateKey_cacheOK\<close>, \<open>addAccounts_cacheOK\<close>, \<open>changeHdPath_cacheOK\<close>).
\<close>

theorem cache_derives_index_at_most_once:
  assumes "cacheOK s"
  shows "cacheOK (snd (addressFromIndex P i s))
       \<and> count_list (derivLog (snd (addressFromIndex P i s))) i \<le> 1
       \<and> index2wallet s \<subseteq>\<^sub>m index2wallet (snd (addressFromIndex P i s))
       \<and> derivLog (snd (addressFromIndex P i s))
           = (if index2wallet s i = None \<and> root s \<noteq> None then derivLog s @ [i] else derivLog s)
       \<and> (index2wallet s i = Some e \<longrightarrow> addressFromIndex P i s = (Inr e, s))
       \<and> (fst (addressFromIndex P i s) = Inr e \<longrightarrow>
            index2wallet (snd (addressFromIndex P i s)) i = Some e)
       \<and> addressFromIndex P i (snd (addressFromIndex P i s)) = addressFromIndex P i s"
proof -
  have "cacheOK (snd (addressFromIndex P i s))"
    by (rule addressFromIndex_cacheOK [OF assms])
  moreover from this have "count_list (derivLog (snd (addressFromIndex P i s))) i \<le> 1"
    using distinct_count_le_1 [of "derivLog (snd (addressFromIndex P i s))" i]
    by (simp add: cacheOK_def)
  moreover have "derivLog (snd (addressFromIndex P i s))
           = (if index2wallet s i = None \<and> root s \<noteq> None then derivLog s @ [i] else derivLog s)"
    by (auto simp add: addressFromIndex_def Let_def split: option.splits)
  moreover have "fst (addressFromIndex P i s) = Inr e \<longrightarrow>
            index2wallet (snd (addressFromIndex P i s)) i = Some e"
    by (auto simp add: addressFromIndex_def Let_def split: option.splits)
  ultimately show ?thesis
    by (simp add: addressFromIndex_twice addressFromIndex_keeps_entries addressFromIndex_hit)
qed

lemma sampleWallet_cacheOK: "cacheOK sampleWallet"
  by (simp add: cacheOK_def sampleWallet_eq newHDPrivateKey_def)

lemma sample_first_lookup:
  "fst (addressFromIndex samplePrims 1 sampleWallet)
     = Inr (''D010230353528303128303128303102'', childPair samplePrims sampleRoot 0 1)"
  "derivLog (snd (addressFromIndex samplePrims 1 sampleWallet)) = [1]"
proof -
  have a: "childAddress samplePrims None sampleRoot (Suc 0) = ''D010230353528303128303128303102''"
    by code_simp
  show "fst (addressFromIndex samplePrims 1 sampleWallet)
     = Inr (''D010230353528303128303128303102'', childPair samplePrims sampleRoot 0 1)"
    using miss_registered [of sampleWallet sampleRoot samplePrims 0, OF sampleWallet_fresh(1)]
    by (simp add: registered_0 [OF sampleWallet_fresh(2,3)] sampleWallet_fresh a)
  show "derivLog (snd (addressFromIndex samplePrims 1 sampleWallet)) = [1]"
    by (simp add: addressFromIndex_def sampleWallet_fresh Let_def sampleWallet_eq
          newHDPrivateKey_def)
qed

theorem cache_derives_index_at_most_once_witness:
  "cacheOK sampleWallet
   \<and> fst (addressFromIndex samplePrims 1 sampleWallet)
       = Inr (''D010230353528303128303128303102'', childPair samplePrims sampleRoot 0 1)
   \<and> index2wallet (snd (addressFromIndex samplePrims 1 sampleWallet)) 1
       = Some (''D010230353528303128303128303102'', childPair samplePrims sampleRoot 0 1)
   \<and> derivLog (snd (addressFromIndex samplePrims 1 sampleWallet)) = [1]
   \<and> addressFromIndex samplePrims 1 (snd (addressFromIndex samplePrims 1 sampleWallet))
       = addressFromIndex samplePrims 1 sampleWallet
   \<and> count_list (derivLog (snd (addressFromIndex samplePrims 1 sampleWallet))) 1 \<le> 1"
  using cache_derives_index_at_most_once
          [of sampleWallet samplePrims 1
              "(''D010230353528303128303128303102'', childPair samplePrims sampleRoot 0 1)",
           OF sampleWallet_cacheOK]
        sample_first_lookup sampleWallet_cacheOK
  by simp

section \<open>C6: what the registry deduplicates\<close>

lemma addressFromIndex_registryOK:
  assumes "registryOK s"
  shows "registryOK (snd (addressFromIndex P i s))"
proof (cases "index2wallet s i = None \<and> root s \<noteq> None")
  case False
  then have "snd (addressFromIndex P i s) = s"
    by (auto simp add: addressFromIndex_def split: option.splits)
  with assms show ?thesis by simp
next
  case True
  then obtain r where r: "root s = Some r" and n: "index2wallet s i = None" by auto
  have "ran ((index2wallet s)(i \<mapsto> e)) \<subseteq> insert e (ran (index2wallet s))" for e
    by (auto simp add: ran_def)
  with assms show ?thesis
    by (auto simp add: registryOK_def addressFromIndex_def r n Let_def list_all_iff
          intro: less_SucI)
qed

lemma addressFromIndex_returns_cached:
  "addressFromIndex P i s = (Inr e, s1) \<Longrightarrow> e \<in> ran (index2wallet s1)"
  by (auto simp add: addressFromIndex_def Let_def ran_def split: option.splits)

lemma registryOK_push:
  assumes ok: "registryOK s" and a: "addressFromIndex P i s = (Inr (ad, w), s1)"
    and nin: "\<not> wallets_includes (wallets s1) w"
  shows "registryOK (s1\<lparr>wallets := wallets s1 @ [w]\<rparr>)"
proof -
  have ok1: "registryOK s1"
    using addressFromIndex_registryOK [OF ok, of P i] a by simp
  have "(ad, w) \<in> ran (index2wallet s1)"
    by (rule addressFromIndex_returns_cached [OF a])
  with ok1 have "ecRef w < nextRef s1"
    by (auto simp add: registryOK_def)
  with ok1 nin show ?thesis
    by (auto simp add: registryOK_def wallets_includes_def)
qed

lemma addAccounts_registryOK:
  assumes "addAccounts P n s = Some y" and "registryOK s"
  shows "registryOK (snd y)"
  by (rule addAccounts_invariant [where I = registryOK, OF assms])
     (erule addressFromIndex_registryOK, erule (2) registryOK_push)

lemma addAccountsMany_registryOK:
  "registryOK s \<Longrightarrow> addAccountsMany P ns s = Some s' \<Longrightarrow> registryOK s'"
proof (induction ns arbitrary: s)
  case Nil
  then show ?case by simp
next
  case (Cons n ns)
  from Cons.prems(2) obtain y where y: "addAccounts P n s = Some y"
    and rest: "addAccountsMany P ns (snd y) = Some s'"
    by (auto split: option.splits)
  from addAccounts_registryOK [OF y Cons.prems(1)] rest show ?case
    by (rule Cons.IH)
qed

lemma newHDPrivateKey_registryOK: "registryOK (newHDPrivateKey P)"
  by (simp add: registryOK_def newHDPrivateKey_def)

lemma fromSeed_registryOK: "registryOK s \<Longrightarrow> registryOK (snd (fromSeed P sd s))"
  by (simp add: registryOK_def fromSeed_def Let_def split: option.splits)

lemma changeHdPath_registryOK: "registryOK s \<Longrightarrow> registryOK (snd (changeHdPath P path s))"
  by (simp add: registryOK_def changeHdPath_def Let_def split: option.splits)

text \<open>The step of the loop that skips an index: the looked-up object is in the registry.\<close>

lemma addLoop_skips_registered_object:
  assumes "c \<noteq> 0" and "addressFromIndex P i s = (Inr (ad, w), s1)"
    and "wallets_includes (wallets s1) w"
  shows "addLoop P c i acc s = addLoop P c (i + 1) acc s1"
  using assms by (subst addLoop.simps) simp

text \<open>
  C6, as the code has it. The registry is deduplicated by object: from an instance in
  which no object is registered twice, every sequence of \<open>addAccounts\<close> calls that returns
  leaves an instance in which no object is registered twice. An index is skipped when the
  key-pair object cached for it is the very object already in the registry
  (\<open>addLoop_skips_registered_object\<close>); the key bytes are not compared.
\<close>

theorem registry_never_holds_an_object_twice:
  assumes "registryOK s" and "addAccountsMany P ns s = Some s'"
  shows "registryOK s' \<and> distinct (map ecRef (wallets s'))"
  using addAccountsMany_registryOK [OF assms] by (simp add: registryOK_def)

lemma sampleWallet_registryOK: "registryOK sampleWallet"
  by (simp add: registryOK_def sampleWallet_eq newHDPrivateKey_def)

theorem registry_never_holds_an_object_twice_witness:
  "registryOK sampleWallet
   \<and> addAccountsMany samplePrims [2, 1] sampleWallet
       = Some (registered samplePrims sampleRoot sampleWallet 3)
   \<and> map ecRef (wallets (registered samplePrims sampleRoot sampleWallet 3)) = [0, 1, 2]
   \<and> distinct (map ecRef (wallets (registered samplePrims sampleRoot sampleWallet 3)))"
proof -
  have run: "addAccountsMany samplePrims [2, 1] sampleWallet
               = Some (registered samplePrims sampleRoot sampleWallet 3)"
    using addAccountsMany_registered [OF sampleWallet_fresh(1-3), of samplePrims "[2, 1]" 0]
    by (simp add: registered_0 [OF sampleWallet_fresh(2,3)])
  have refs: "map ecRef (wallets (registered samplePrims sampleRoot sampleWallet 3)) = [0, 1, 2]"
    by (simp add: registered_def childPair_def sampleWallet_fresh upt_rec)
  show ?thesis
    using registry_never_holds_an_object_twice [OF sampleWallet_registryOK run] run refs
          sampleWallet_registryOK
    by simp
qed

lemma collidingWallet_fresh:
  "root collidingWallet = Some sampleRoot" "wallets collidingWallet = []"
  "index2wallet collidingWallet = Map.empty" "addressType collidingWallet = None"
  "nextRef collidingWallet = 0"
  by (simp_all add: collidingWallet_def fromSeed_def newHDPrivateKey_def samplePrims_def
        collidingPrims_def sampleRoot_def hdPathString_def keyNode_def)

text \<open>
  C6 as stated fails: when the children 1 and 2 have the same key, \<open>addAccounts(2)\<close>
  registers both, and the registry holds the same key pair twice.
\<close>

theorem registry_holds_equal_key_pairs_counterexample:
  "addAccounts collidingPrims 2 collidingWallet
     = Some (Inr [''D010230353528303128303128303103'', ''D010230353528303128303128303103''],
             registered collidingPrims sampleRoot collidingWallet 2)
   \<and> walletKeys (registered collidingPrims sampleRoot collidingWallet 2)
       = [([0, 1, 47, 52, 52, 39, 47, 48, 39, 47, 48, 39, 47, 48, 2],
           [1, 2, 48, 53, 53, 40, 48, 49, 40, 48, 49, 40, 48, 49, 3]),
          ([0, 1, 47, 52, 52, 39, 47, 48, 39, 47, 48, 39, 47, 48, 2],
           [1, 2, 48, 53, 53, 40, 48, 49, 40, 48, 49, 40, 48, 49, 3])]
   \<and> \<not> distinct (walletKeys (registered collidingPrims sampleRoot collidingWallet 2))"
proof -
  have a: "map (childAddress collidingPrims None sampleRoot) [1..<Suc 2]
             = [''D010230353528303128303128303103'', ''D010230353528303128303128303103'']"
    by code_simp
  have run: "addAccounts collidingPrims 2 collidingWallet
     = Some (Inr [''D010230353528303128303128303103'', ''D010230353528303128303128303103''],
             registered collidingPrims sampleRoot collidingWallet 2)"
    using addAccounts_fresh [OF collidingWallet_fresh(1-3), of collidingPrims 2]
    by (simp only: collidingWallet_fresh a) simp
  have k: "walletKeys (registered collidingPrims sampleRoot collidingWallet 2)
       = [([0, 1, 47, 52, 52, 39, 47, 48, 39, 47, 48, 39, 47, 48, 2],
           [1, 2, 48, 53, 53, 40, 48, 49, 40, 48, 49, 40, 48, 49, 3]),
          ([0, 1, 47, 52, 52, 39, 47, 48, 39, 47, 48, 39, 47, 48, 2],
           [1, 2, 48, 53, 53, 40, 48, 49, 40, 48, 49, 40, 48, 49, 3])]"
    by (simp add: walletKeys_def registered_def childPair_def childPublicKey_def
          collidingPrims_def samplePrims_def keyNode_def sampleRoot_def sampleSeed_def
          hdPathString_def upt_rec)
  show ?thesis
    using run k by simp
qed

section \<open>C2: signPsbt with a descriptor that resolves to no wallet\<close>

lemma findAccountByPk_resolved:
  "resolved P s d \<Longrightarrow> \<exists>account. findAccountByPk P (inputPublicKey d) s = Inr account"
  by (auto simp add: resolved_def findAccountByPk_def list_ex_iff find_None_iff
        split: option.splits)

lemma findAccountByPk_unresolved:
  "\<not> resolved P s d \<Longrightarrow>
     findAccountByPk P (inputPublicKey d) s = Inl (PublicKeyNotFound (inputPublicKey d))"
  by (auto simp add: resolved_def findAccountByPk_def list_ex_iff find_None_iff
        split: option.splits)

text \<open>
  With a first unresolved descriptor \<open>d\<close>, the iteration is the iteration over the
  descriptors before \<open>d\<close>, followed by the exception of \<open>findAccountByPk\<close> for \<open>d\<close>.
\<close>

lemma signInputs_first_unresolved:
  assumes "find (\<lambda>d. \<not> resolved P s d) inputs = Some d"
  shows "signInputs P T s inputs psbt =
           (case signInputs P T s (takeWhile (resolved P s) inputs) psbt of
              (None, p) \<Rightarrow> (Some (PublicKeyNotFound (inputPublicKey d)), p)
            | (Some e, p) \<Rightarrow> (Some e, p))"
  using assms
proof (induction inputs arbitrary: psbt)
  case Nil
  then show ?case by simp
next
  case (Cons i rest)
  show ?case
  proof (cases "resolved P s i")
    case False
    with Cons.prems have "d = i" by simp
    with False show ?thesis
      by (simp add: findAccountByPk_unresolved)
  next
    case True
    then obtain account where acc: "findAccountByPk P (inputPublicKey i) s = Inr account"
      using findAccountByPk_resolved by blast
    from True Cons.prems have rest: "find (\<lambda>d. \<not> resolved P s d) rest = Some d" by simp
    obtain e p where sg: "signInput T psbt (inputIndex i) (ecPrivateKey account) (sighashTypes i) = (e, p)"
      by (cases "signInput T psbt (inputIndex i) (ecPrivateKey account) (sighashTypes i)")
    show ?thesis
    proof (cases e)
      case None
      with True acc sg Cons.IH [OF rest, of p] show ?thesis by simp
    next
      case (Some err)
      with True acc sg show ?thesis by simp
    qed
  qed
qed

lemma signInputs_keeps_observation:
  assumes "\<And>p i k h. obs (snd (signInput T p i k h)) = obs p"
  shows "obs (snd (signInputs P T s inputs psbt)) = obs psbt"
proof (induction inputs arbitrary: psbt)
  case Nil
  then show ?case by simp
next
  case (Cons i rest)
  show ?case
  proof (cases "findAccountByPk P (inputPublicKey i) s")
    case (Inl e)
    then show ?thesis by simp
  next
    case (Inr account)
    obtain e p where sg: "signInput T psbt (inputIndex i) (ecPrivateKey account) (sighashTypes i) = (e, p)"
      by (cases "signInput T psbt (inputIndex i) (ecPrivateKey account) (sighashTypes i)")
    have "obs p = obs psbt"
      using assms [of psbt "inputIndex i" "ecPrivateKey account" "sighashTypes i"] sg by simp
    with Inr sg Cons.IH [of p] show ?thesis
      by (cases e) simp_all
  qed
qed

text \<open>
  C2, as the code has it. When some descriptor's public key matches no registered wallet,
  and \<open>d\<close> is the first such descriptor, \<open>signPsbt\<close> signs the inputs named by the
  descriptors before \<open>d\<close>, in order, and then throws: the error of \<open>findAccountByPk\<close> for
  \<open>d\<close>, or the error of an earlier \<open>signInput\<close> call that failed. \<open>finalizeAllInputs\<close> is
  not run, so whatever signing leaves alone, such as which inputs are finalized, is as it
  was before the call. The inputs before \<open>d\<close> stay signed.
\<close>

theorem signPsbt_throws_before_finalizing:
  assumes "find (\<lambda>d. \<not> resolved P s d) inputs = Some d"
  shows "signPsbt P T psbt inputs s =
           (case signInputs P T s (takeWhile (resolved P s) inputs) psbt of
              (None, p) \<Rightarrow> (Some (PublicKeyNotFound (inputPublicKey d)), p)
            | (Some e, p) \<Rightarrow> (Some e, p))
       \<and> fst (signPsbt P T psbt inputs s) \<noteq> None
       \<and> ((\<forall>p i k h. obs (snd (signInput T p i k h)) = obs p) \<longrightarrow>
            obs (snd (signPsbt P T psbt inputs s)) = obs psbt)"
proof -
  have eq: "signInputs P T s inputs psbt =
           (case signInputs P T s (takeWhile (resolved P s) inputs) psbt of
              (None, p) \<Rightarrow> (Some (PublicKeyNotFound (inputPublicKey d)), p)
            | (Some e, p) \<Rightarrow> (Some e, p))"
    by (rule signInputs_first_unresolved [OF assms])
  then have ne: "fst (signInputs P T s inputs psbt) \<noteq> None"
    by (simp split: prod.splits option.splits)
  then have sp: "signPsbt P T psbt inputs s = signInputs P T s inputs psbt"
    by (auto simp add: signPsbt_def split: prod.splits option.splits)
  have "obs (snd (signInputs P T s inputs psbt)) = obs psbt"
    if "\<forall>p i k h. obs (snd (signInput T p i k h)) = obs p"
    using signInputs_keeps_observation [of obs T P s inputs psbt] that by simp
  with eq ne sp show ?thesis by simp
qed

lemma sampleSignInput_keeps_finalized:
  "map finalized (snd (signInput samplePsbt p i k h)) = map finalized p"
  by (simp add: samplePsbt_def sampleSignInput_def map_update list_update_same_conv)

lemma sample_one_account:
  "addAccounts samplePrims 1 sampleWallet
     = Some (Inr [''D010230353528303128303128303102''],
             registered samplePrims sampleRoot sampleWallet 1)"
proof -
  have a: "map (childAddress samplePrims None sampleRoot) [1..<Suc 1]
             = [''D010230353528303128303128303102'']"
    by code_simp
  show ?thesis
    using addAccounts_fresh [OF sampleWallet_fresh(1-3), of samplePrims 1]
    by (simp only: sampleWallet_fresh a) simp
qed

lemma sample_one_account_wallets:
  "wallets (registered samplePrims sampleRoot sampleWallet (Suc 0))
     = [\<lparr> ecRef = 0,
          ecPrivateKey = [0, 1, 47, 52, 52, 39, 47, 48, 39, 47, 48, 39, 47, 48, 1],
          ecPublicKey = [1, 2, 48, 53, 53, 40, 48, 49, 40, 48, 49, 40, 48, 49, 2] \<rparr>]"
  by (simp add: registered_def childPair_def childPublicKey_def sampleWallet_fresh
        samplePrims_def keyNode_def sampleRoot_def sampleSeed_def hdPathString_def)

lemma sample_key_hex:
  "bufferHex samplePrims [1, 2, 48, 53, 53, 40, 48, 49, 40, 48, 49, 40, 48, 49, 2]
     = ''010230353528303128303128303102''"
  by code_simp

lemma sample_resolved:
  "resolved samplePrims (registered samplePrims sampleRoot sampleWallet (Suc 0)) (sampleInputs ! 0)"
  "\<not> resolved samplePrims (registered samplePrims sampleRoot sampleWallet (Suc 0)) (sampleInputs ! Suc 0)"
  by (simp_all add: resolved_def sample_one_account_wallets sample_key_hex sampleInputs_def)

lemma sample_first_unresolved:
  "find (\<lambda>d. \<not> resolved samplePrims (registered samplePrims sampleRoot sampleWallet (Suc 0)) d)
     sampleInputs = Some (sampleInputs ! Suc 0)"
  using sample_resolved by (simp add: sampleInputs_def)

lemma sample_signPsbt:
  "signPsbt samplePrims samplePsbt sampleTx sampleInputs
     (registered samplePrims sampleRoot sampleWallet (Suc 0))
     = (Some (PublicKeyNotFound ''ff''),
        [\<lparr> signedBy = [[0, 1, 47, 52, 52, 39, 47, 48, 39, 47, 48, 39, 47, 48, 1]],
           finalized = False \<rparr>,
         \<lparr> signedBy = [], finalized = False \<rparr>])"
  by (simp add: signPsbt_def sampleInputs_def findAccountByPk_def sample_one_account_wallets
        sample_key_hex samplePsbt_def sampleSignInput_def sampleTx_def)

theorem signPsbt_throws_before_finalizing_witness:
  "find (\<lambda>d. \<not> resolved samplePrims (registered samplePrims sampleRoot sampleWallet 1) d)
     sampleInputs = Some (sampleInputs ! 1)
   \<and> (\<forall>p i k h. map finalized (snd (signInput samplePsbt p i k h)) = map finalized p)
   \<and> signPsbt samplePrims samplePsbt sampleTx sampleInputs
        (registered samplePrims sampleRoot sampleWallet 1)
       = (Some (PublicKeyNotFound ''ff''),
          [\<lparr> signedBy = [[0, 1, 47, 52, 52, 39, 47, 48, 39, 47, 48, 39, 47, 48, 1]],
             finalized = False \<rparr>,
           \<lparr> signedBy = [], finalized = False \<rparr>])
   \<and> map finalized (snd (signPsbt samplePrims samplePsbt sampleTx sampleInputs
        (registered samplePrims sampleRoot sampleWallet 1))) = map finalized sampleTx"
proof -
  have "map finalized (snd (signPsbt samplePrims samplePsbt sampleTx sampleInputs
          (registered samplePrims sampleRoot sampleWallet (Suc 0)))) = map finalized sampleTx"
    using signPsbt_throws_before_finalizing
            [of samplePrims "registered samplePrims sampleRoot sampleWallet (Suc 0)"
                sampleInputs "sampleInputs ! Suc 0" samplePsbt sampleTx "map finalized",
             OF sample_first_unresolved]
          sampleSignInput_keeps_finalized
    by blast
  then show ?thesis
    using sample_first_unresolved sampleSignInput_keeps_finalized sample_signPsbt
    by simp
qed

text \<open>
  C2 as stated fails: with one registered account, a first descriptor that names it and a
  second that names an unknown key, \<open>signPsbt\<close> throws for the second descriptor after it
  has signed input 0, which stays signed.
\<close>

theorem signPsbt_leaves_earlier_inputs_signed_counterexample:
  "addAccounts samplePrims 1 sampleWallet
     = Some (Inr [''D010230353528303128303128303102''],
             registered samplePrims sampleRoot sampleWallet 1)
   \<and> \<not> resolved samplePrims (registered samplePrims sampleRoot sampleWallet 1)
         (sampleInputs ! 1)
   \<and> signPsbt samplePrims samplePsbt sampleTx sampleInputs
        (registered samplePrims sampleRoot sampleWallet 1)
       = (Some (PublicKeyNotFound ''ff''),
          [\<lparr> signedBy = [[0, 1, 47, 52, 52, 39, 47, 48, 39, 47, 48, 39, 47, 48, 1]],
             finalized = False \<rparr>,
           \<lparr> signedBy = [], finalized = False \<rparr>])
   \<and> snd (signPsbt samplePrims samplePsbt sampleTx sampleInputs
             (registered samplePrims sampleRoot sampleWallet 1)) \<noteq> sampleTx"
  using sample_one_account sample_resolved(2) sample_signPsbt
  by (simp add: sampleTx_def)

section \<open>C3: getAccounts after changeHdPath\<close>

text \<open>
  After a \<open>changeHdPath\<close> that returns, the registry is empty and \<open>getAccounts()\<close> has one
  entry: the address of \<open>publicKey\<close>, which \<open>changeHdPath\<close> does not assign. It is the
  key of the root of the path the instance was initialised with.
\<close>

lemma changeHdPath_getAccounts:
  assumes "fst (changeHdPath P path s) = Inr ()"
  shows "getAccounts P (snd (changeHdPath P path s)) = [getAddress P (addressType s) (publicKey s)]"
    and "wallets (snd (changeHdPath P path s)) = []"
    and "index2wallet (snd (changeHdPath P path s)) = Map.empty"
    and "publicKey (snd (changeHdPath P path s)) = publicKey s"
    and "root (snd (changeHdPath P path s))
           = (case hdWallet s of None \<Rightarrow> None | Some w \<Rightarrow> derive P w path)"
  using assms
  by (simp_all add: changeHdPath_def getAccounts_def Let_def split: option.splits)

lemma sample_changeHdPath:
  "changeHdPath samplePrims otherPath (registered samplePrims sampleRoot sampleWallet 2)
     = (Inr (), movedWallet\<lparr>nextRef := 2\<rparr>)"
  by (simp add: changeHdPath_def movedWallet_def registered_def sampleWallet_eq
        newHDPrivateKey_def samplePrims_def otherPath_def Let_def keyNode_def)

lemma movedWallet_fresh:
  "root movedWallet = Some otherRoot" "wallets movedWallet = []"
  "index2wallet movedWallet = Map.empty" "addressType movedWallet = None"
  "nextRef movedWallet = 0" "childIndex movedWallet = 0" "seed movedWallet = Some sampleSeed"
  "publicKey movedWallet = nodePublicKey sampleRoot"
  by (simp_all add: changeHdPath_def movedWallet_def sampleWallet_eq otherRoot_def
        newHDPrivateKey_def samplePrims_def otherPath_def Let_def keyNode_def)

text \<open>
  C3 at a concrete instance: the sample wallet with two accounts is moved from the default
  path to \<open>m/44'/3'/0'/0\<close>. The root is the root of the new path, the registry is empty,
  and \<open>getAccounts()\<close> returns the address of the root of the default path, which is not
  the address of the root of the new path.
\<close>

theorem changeHdPath_keeps_old_root_address:
  "changeHdPath samplePrims otherPath (registered samplePrims sampleRoot sampleWallet 2)
     = (Inr (), movedWallet\<lparr>nextRef := 2\<rparr>)
   \<and> root (movedWallet\<lparr>nextRef := 2\<rparr>) = Some otherRoot
   \<and> derive samplePrims (fromMasterSeed samplePrims sampleSeed) otherPath = Some otherRoot
   \<and> getAccounts samplePrims (movedWallet\<lparr>nextRef := 2\<rparr>) = [''D0102303535283031283031283031'']
   \<and> getAddress samplePrims None (nodePublicKey sampleRoot) = ''D0102303535283031283031283031''
   \<and> getAddress samplePrims None (nodePublicKey otherRoot) = ''D0102303535283034283031283031''"
proof -
  have a: "getAddress samplePrims None (nodePublicKey sampleRoot) = ''D0102303535283031283031283031''"
    by code_simp
  have b: "getAddress samplePrims None (nodePublicKey otherRoot) = ''D0102303535283034283031283031''"
    by code_simp
  have d: "derive samplePrims (fromMasterSeed samplePrims sampleSeed) otherPath = Some otherRoot"
    by (simp add: samplePrims_def otherRoot_def otherPath_def keyNode_def)
  show ?thesis
    using sample_changeHdPath a b d
    by (simp add: getAccounts_def movedWallet_fresh)
qed

section \<open>C4: serialize, then deserialize\<close>

lemma registered_fields:
  "childIndex (registered P r s k) = childIndex s" "seed (registered P r s k) = seed s"
  "addressType (registered P r s k) = addressType s" "root (registered P r s k) = root s"
  "publicKey (registered P r s k) = publicKey s" "hdPath (registered P r s k) = hdPath s"
  by (simp_all add: registered_def)

lemma addAccountsMany_fresh:
  assumes r: "root s = Some r" and w: "wallets s = []" and c: "index2wallet s = Map.empty"
  shows "addAccountsMany P (map int ns) s = Some (registered P r s (sum_list ns))"
  using addAccountsMany_registered [OF r w c, of P ns 0] registered_0 [OF w c, of P r]
  by simp

text \<open>
  C4, as the code has it. Let \<open>x0\<close> be a root instance initialised from a seed on the
  default path: its root and public key are those of the default path's root of its seed,
  its registry and cache are empty; the seed's hexadecimal string is not empty and decodes
  to the seed again. Let \<open>x\<close> be \<open>x0\<close> after \<open>addAccounts\<close> calls with counts \<open>\<ge> 0\<close>. Then
  \<open>serialize\<close> returns the number of accounts, the seed string and the address type of
  \<open>x\<close>, and the static \<open>deserialize\<close> of that state returns an instance with the
  \<open>getAccounts()\<close> of \<open>x\<close>. The path is not part of the serialized state: an instance on
  another path does not come back.
\<close>

theorem deserialize_serialize_on_default_path:
  assumes "seed x0 = Some sd" and "childIndex x0 = 0"
    and "derive P (fromMasterSeed P sd) hdPathString = Some r"
    and "root x0 = Some r" and "publicKey x0 = nodePublicKey r"
    and "wallets x0 = []" and "index2wallet x0 = Map.empty"
    and "addAccountsMany P (map int ns) x0 = Some x"
    and "toHex P sd \<noteq> []"
    and "fromHex P (toHex P sd) = Some sd"
  shows "\<exists>st y. serialize P x = (Inr st, x)
            \<and> numberOfAccounts st = Some (int (sum_list ns))
            \<and> serializedSeed st = toHex P sd
            \<and> serializedAddressType st = addressType x
            \<and> deserializeStatic P st = Some (Inr y)
            \<and> getAccounts P y = getAccounts P x"
proof -
  note r = assms(3)
  have x: "x = registered P r x0 (sum_list ns)"
    using assms(8) addAccountsMany_fresh [OF assms(4,6,7), of P ns] by simp
  let ?st = "\<lparr> numberOfAccounts = Some (int (sum_list ns)), serializedSeed = toHex P sd,
               serializedAddressType = addressType x0 \<rparr>"
  let ?y0 = "(snd (fromSeed P sd (newHDPrivateKey P)))\<lparr>addressType := addressType x0\<rparr>"
  have s: "serialize P x = (Inr ?st, x)"
    by (simp add: serialize_def getChildCount_def x registered_fields length_wallets_registered
          assms(1,2))
  have d: "deserializeStatic P ?st = Some (Inr (registered P r ?y0 (sum_list ns)))"
    using deserializeStatic_ok [of ?st "sum_list ns" P sd r] assms(9,10) r
    by simp
  have g: "getAccounts P (registered P r ?y0 (sum_list ns)) = getAccounts P x"
    by (simp add: x getAccounts_registered fromSeed_new_fresh [OF r] assms(5) del: upt_Suc)
  from s d g show ?thesis
    by (intro exI [of _ ?st] exI [of _ "registered P r ?y0 (sum_list ns)"])
       (simp add: x registered_fields)
qed

lemma sampleWallet_fromSeed:
  "fromSeed samplePrims sampleSeed (newHDPrivateKey samplePrims) = (Inr (), sampleWallet)"
  using fromSeed_new_fresh(1) [OF sample_derive]
  by (simp add: sampleWallet_def prod_eq_iff)

theorem deserialize_serialize_on_default_path_witness:
  "seed (sampleWallet\<lparr>addressType := Some 5\<rparr>) = Some sampleSeed
   \<and> childIndex (sampleWallet\<lparr>addressType := Some 5\<rparr>) = 0
   \<and> derive samplePrims (fromMasterSeed samplePrims sampleSeed) hdPathString = Some sampleRoot
   \<and> root (sampleWallet\<lparr>addressType := Some 5\<rparr>) = Some sampleRoot
   \<and> publicKey (sampleWallet\<lparr>addressType := Some 5\<rparr>) = nodePublicKey sampleRoot
   \<and> wallets (sampleWallet\<lparr>addressType := Some 5\<rparr>) = []
   \<and> index2wallet (sampleWallet\<lparr>addressType := Some 5\<rparr>) = Map.empty
   \<and> addAccountsMany samplePrims (map int [2, 1]) (sampleWallet\<lparr>addressType := Some 5\<rparr>)
       = Some (registered samplePrims sampleRoot (sampleWallet\<lparr>addressType := Some 5\<rparr>) 3)
   \<and> toHex samplePrims sampleSeed \<noteq> []
   \<and> fromHex samplePrims (toHex samplePrims sampleSeed) = Some sampleSeed
   \<and> (\<exists>st y. serialize samplePrims
                 (registered samplePrims sampleRoot (sampleWallet\<lparr>addressType := Some 5\<rparr>) 3)
               = (Inr st, registered samplePrims sampleRoot
                            (sampleWallet\<lparr>addressType := Some 5\<rparr>) 3)
            \<and> numberOfAccounts st = Some 3 \<and> serializedSeed st = ''0001''
            \<and> serializedAddressType st = Some 5
            \<and> deserializeStatic samplePrims st = Some (Inr y)
            \<and> getAccounts samplePrims y
                = getAccounts samplePrims
                    (registered samplePrims sampleRoot (sampleWallet\<lparr>addressType := Some 5\<rparr>) 3))"
proof -
  let ?x0 = "sampleWallet\<lparr>addressType := Some 5\<rparr>"
  have f: "seed ?x0 = Some sampleSeed" "childIndex ?x0 = 0" "root ?x0 = Some sampleRoot"
    "publicKey ?x0 = nodePublicKey sampleRoot" "wallets ?x0 = []"
    "index2wallet ?x0 = Map.empty" "addressType ?x0 = Some 5"
    by (simp_all add: sampleWallet_fresh) (simp add: sampleWallet_eq)
  have run: "addAccountsMany samplePrims (map int [2, 1]) ?x0
       = Some (registered samplePrims sampleRoot ?x0 3)"
    using addAccountsMany_fresh [OF f(3,5,6), of samplePrims "[2, 1]"]
    by simp
  have hex: "toHex samplePrims sampleSeed \<noteq> []"
    "fromHex samplePrims (toHex samplePrims sampleSeed) = Some sampleSeed"
    by (simp_all add: sample_codec)
  show ?thesis
    using deserialize_serialize_on_default_path
            [OF f(1,2) sample_derive f(3,4,5,6) run hex]
          f sample_derive run hex
    by (simp add: sample_codec registered_fields)
qed

text \<open>
  C4 as stated fails: the sample wallet is moved to the path \<open>m/44'/3'/0'/0\<close> and given
  one account. It is a root instance with a seed; its serialized state deserializes to an
  instance on the default path, whose account is another one.
\<close>

theorem deserialize_serialize_other_path_counterexample:
  "fst (changeHdPath samplePrims otherPath sampleWallet) = Inr ()
   \<and> addAccounts samplePrims 1 movedWallet
       = Some (Inr [''D010230353528303428303128303102''],
               registered samplePrims otherRoot movedWallet 1)
   \<and> childIndex (registered samplePrims otherRoot movedWallet 1) = 0
   \<and> seed (registered samplePrims otherRoot movedWallet 1) = Some sampleSeed
   \<and> serialize samplePrims (registered samplePrims otherRoot movedWallet 1)
       = (Inr \<lparr> numberOfAccounts = Some 1, serializedSeed = ''0001'',
                serializedAddressType = None \<rparr>,
          registered samplePrims otherRoot movedWallet 1)
   \<and> deserializeStatic samplePrims
        \<lparr> numberOfAccounts = Some 1, serializedSeed = ''0001'', serializedAddressType = None \<rparr>
       = Some (Inr (registered samplePrims sampleRoot sampleWallet 1))
   \<and> getAccounts samplePrims (registered samplePrims sampleRoot sampleWallet 1)
       = [''D0102303535283031283031283031'', ''D010230353528303128303128303102'']
   \<and> getAccounts samplePrims (registered samplePrims otherRoot movedWallet 1)
       = [''D0102303535283031283031283031'', ''D010230353528303428303128303102'']"
proof -
  have c: "fst (changeHdPath samplePrims otherPath sampleWallet) = Inr ()"
    by (simp add: changeHdPath_def sampleWallet_eq newHDPrivateKey_def samplePrims_def
          otherPath_def Let_def)
  have a: "map (childAddress samplePrims None otherRoot) [1..<Suc 1]
             = [''D010230353528303428303128303102'']"
    by code_simp
  have add: "addAccounts samplePrims 1 movedWallet
       = Some (Inr [''D010230353528303428303128303102''],
               registered samplePrims otherRoot movedWallet 1)"
    using addAccounts_fresh [OF movedWallet_fresh(1-3), of samplePrims 1]
    by (simp only: movedWallet_fresh a) simp
  have ser: "serialize samplePrims (registered samplePrims otherRoot movedWallet 1)
       = (Inr \<lparr> numberOfAccounts = Some 1, serializedSeed = ''0001'',
                serializedAddressType = None \<rparr>,
          registered samplePrims otherRoot movedWallet 1)"
    by (simp add: serialize_def getChildCount_def registered_fields length_wallets_registered
          movedWallet_fresh sample_codec)
  have same: "(snd (fromSeed samplePrims sampleSeed (newHDPrivateKey samplePrims)))
                \<lparr>addressType := None\<rparr> = sampleWallet"
    unfolding sampleWallet_fromSeed snd_conv
    by (simp add: sampleWallet_eq newHDPrivateKey_def samplePrims_def)
  have de: "deserializeStatic samplePrims
        \<lparr> numberOfAccounts = Some 1, serializedSeed = ''0001'', serializedAddressType = None \<rparr>
       = Some (Inr (registered samplePrims sampleRoot sampleWallet 1))"
    using deserializeStatic_ok
            [of "\<lparr> numberOfAccounts = Some 1, serializedSeed = ''0001'',
                   serializedAddressType = None :: nat option \<rparr>" 1 samplePrims sampleSeed sampleRoot]
    by (simp add: sample_codec sample_derive same)
  have r: "getAddress samplePrims None (nodePublicKey sampleRoot) = ''D0102303535283031283031283031''"
    by code_simp
  have a1: "map (childAddress samplePrims None sampleRoot) [1..<Suc 1]
             = [''D010230353528303128303128303102'']"
    by code_simp
  have pk: "publicKey sampleWallet = nodePublicKey sampleRoot"
    by (simp add: sampleWallet_eq)
  have g1: "getAccounts samplePrims (registered samplePrims sampleRoot sampleWallet 1)
       = [''D0102303535283031283031283031'', ''D010230353528303128303128303102'']"
    using a1 r pk
    by (simp add: getAccounts_registered sampleWallet_fresh)
  have g2: "getAccounts samplePrims (registered samplePrims otherRoot movedWallet 1)
       = [''D0102303535283031283031283031'', ''D010230353528303428303128303102'']"
    using a r
    by (simp add: getAccounts_registered movedWallet_fresh)
  show ?thesis
    using c add ser de g1 g2
    by (simp add: registered_fields movedWallet_fresh)
qed

section \<open>C5: signMessage resolves registered accounts only\<close>

lemma tl_getAccounts:
  "tl (getAccounts P s) = map (\<lambda>w. getAddress P (addressType s) (ecPublicKey w)) (wallets s)"
  by (simp add: getAccounts_def)

lemma signMessage_unregistered:
  assumes "address \<notin> set (tl (getAccounts P s))"
  shows "signMessage P address text s = Inl MustSpecifyPublicKey"
proof -
  from assms have "find (\<lambda>f. getAddress P (addressType s) (ecPublicKey f) = address) (wallets s) = None"
    by (auto simp add: tl_getAccounts find_None_iff)
  then show ?thesis
    by (simp add: signMessage_def getPrivateKeyFor_def)
qed

lemma signMessage_registered:
  assumes reg: "address \<in> set (tl (getAccounts P s))"
    and inj: "inj_on (bufferHex P) (ecPublicKey ` set (wallets s))"
    and ne: "\<forall>w \<in> set (wallets s). bufferHex P (ecPublicKey w) \<noteq> []"
    and ok: "\<forall>w \<in> set (wallets s).
               messageVerify P text (getAddress P (addressType s) (ecPublicKey w))
                 (messageSign P text (bufferHex P (ecPrivateKey w)))"
  shows "\<exists>sig. signMessage P address text s = Inr sig \<and> verifyMessage P address text sig"
proof -
  from reg obtain f where f: "find (\<lambda>f. getAddress P (addressType s) (ecPublicKey f) = address) (wallets s) = Some f"
    by (cases "find (\<lambda>f. getAddress P (addressType s) (ecPublicKey f) = address) (wallets s)")
       (auto simp add: tl_getAccounts find_None_iff)
  then have fin: "f \<in> set (wallets s)" and fa: "getAddress P (addressType s) (ecPublicKey f) = address"
    by (auto simp add: find_Some_iff)
  from fin ne have pkne: "bufferHex P (ecPublicKey f) \<noteq> []" by simp
  from fin obtain w where w: "find (\<lambda>w. bufferHex P (ecPublicKey w) = bufferHex P (ecPublicKey f)) (wallets s) = Some w"
    by (cases "find (\<lambda>w. bufferHex P (ecPublicKey w) = bufferHex P (ecPublicKey f)) (wallets s)")
       (auto simp add: find_None_iff)
  then have win: "w \<in> set (wallets s)" and wh: "bufferHex P (ecPublicKey w) = bufferHex P (ecPublicKey f)"
    by (auto simp add: find_Some_iff)
  from inj win fin wh have "ecPublicKey w = ecPublicKey f"
    by (auto dest: inj_onD)
  with fa ok win have "messageVerify P text address (messageSign P text (bufferHex P (ecPrivateKey w)))"
    by auto
  moreover have "signMessage P address text s = Inr (messageSign P text (bufferHex P (ecPrivateKey w)))"
    using f pkne w by (simp add: signMessage_def getPrivateKeyFor_def getWalletForAccount_def)
  ultimately show ?thesis
    by (simp add: verifyMessage_def)
qed

text \<open>
  C5, as the code has it. \<open>signMessage\<close> looks the address up among the registered
  accounts, which are the entries of \<open>getAccounts()\<close> after the first one, the root. For an
  address that is not among them it throws "Must specify publicKey."; the root address is
  such an address unless a registered account has the same address. For the address of a
  registered account it signs with the private key of a registered key pair that has the
  same public key, and \<open>verifyMessage\<close> accepts the signature, given that the public keys
  of the registry have distinct non-empty hexadecimal strings and the message primitive
  accepts, for the address of each registered key pair, a signature made with its
  private key.
\<close>

theorem signMessage_resolves_registered_accounts:
  "(address \<notin> set (tl (getAccounts P s)) \<longrightarrow>
      signMessage P address text s = Inl MustSpecifyPublicKey)
   \<and> (address \<in> set (tl (getAccounts P s))
        \<and> inj_on (bufferHex P) (ecPublicKey ` set (wallets s))
        \<and> (\<forall>w \<in> set (wallets s). bufferHex P (ecPublicKey w) \<noteq> [])
        \<and> (\<forall>w \<in> set (wallets s).
              messageVerify P text (getAddress P (addressType s) (ecPublicKey w))
                (messageSign P text (bufferHex P (ecPrivateKey w)))) \<longrightarrow>
      (\<exists>sig. signMessage P address text s = Inr sig \<and> verifyMessage P address text sig))"
  using signMessage_unregistered [of address P s "text"]
        signMessage_registered [of address P s "text"]
  by blast

lemma sample_two_accounts_wallets:
  "wallets (registered samplePrims sampleRoot sampleWallet 2)
     = [\<lparr> ecRef = 0,
          ecPrivateKey = [0, 1, 47, 52, 52, 39, 47, 48, 39, 47, 48, 39, 47, 48, 1],
          ecPublicKey = [1, 2, 48, 53, 53, 40, 48, 49, 40, 48, 49, 40, 48, 49, 2] \<rparr>,
        \<lparr> ecRef = 1,
          ecPrivateKey = [0, 1, 47, 52, 52, 39, 47, 48, 39, 47, 48, 39, 47, 48, 2],
          ecPublicKey = [1, 2, 48, 53, 53, 40, 48, 49, 40, 48, 49, 40, 48, 49, 3] \<rparr>]"
  by (simp add: registered_def childPair_def childPublicKey_def sampleWallet_fresh
        samplePrims_def keyNode_def sampleRoot_def sampleSeed_def hdPathString_def upt_rec)

lemma sample_two_accounts_getAccounts:
  "getAccounts samplePrims (registered samplePrims sampleRoot sampleWallet 2)
     = [''D0102303535283031283031283031'', ''D010230353528303128303128303102'',
        ''D010230353528303128303128303103'']"
proof -
  have r: "getAddress samplePrims None (nodePublicKey sampleRoot) = ''D0102303535283031283031283031''"
    by code_simp
  have pk: "publicKey sampleWallet = nodePublicKey sampleRoot"
    by (simp add: sampleWallet_eq)
  show ?thesis
    using sample_addresses(1) r pk
    by (simp add: getAccounts_registered sampleWallet_fresh del: upt_Suc)
qed

lemma sample_hex:
  "bufferHex samplePrims [1, 2, 48, 53, 53, 40, 48, 49, 40, 48, 49, 40, 48, 49, 2]
     = ''010230353528303128303128303102''"
  "bufferHex samplePrims [1, 2, 48, 53, 53, 40, 48, 49, 40, 48, 49, 40, 48, 49, 3]
     = ''010230353528303128303128303103''"
  "bufferHex samplePrims [0, 1, 47, 52, 52, 39, 47, 48, 39, 47, 48, 39, 47, 48, 1]
     = ''00012f3434272f30272f30272f3001''"
  "bufferHex samplePrims [0, 1, 47, 52, 52, 39, 47, 48, 39, 47, 48, 39, 47, 48, 2]
     = ''00012f3434272f30272f30272f3002''"
  by code_simp+

lemma sample_verify:
  "messageVerify samplePrims ''hi'' ''D010230353528303128303128303102''
     (messageSign samplePrims ''hi'' ''00012f3434272f30272f30272f3001'')"
  "messageVerify samplePrims ''hi'' ''D010230353528303128303128303103''
     (messageSign samplePrims ''hi'' ''00012f3434272f30272f30272f3002'')"
  by code_simp+

lemma sample_getAddress:
  "getAddress samplePrims None [1, 2, 48, 53, 53, 40, 48, 49, 40, 48, 49, 40, 48, 49, 2]
     = ''D010230353528303128303128303102''"
  "getAddress samplePrims None [1, 2, 48, 53, 53, 40, 48, 49, 40, 48, 49, 40, 48, 49, 3]
     = ''D010230353528303128303128303103''"
  by code_simp+

theorem signMessage_resolves_registered_accounts_witness:
  "''D0102303535283031283031283031''
      \<notin> set (tl (getAccounts samplePrims (registered samplePrims sampleRoot sampleWallet 2)))
   \<and> signMessage samplePrims ''D0102303535283031283031283031'' ''hi''
        (registered samplePrims sampleRoot sampleWallet 2) = Inl MustSpecifyPublicKey
   \<and> ''D010230353528303128303128303102''
      \<in> set (tl (getAccounts samplePrims (registered samplePrims sampleRoot sampleWallet 2)))
   \<and> inj_on (bufferHex samplePrims)
        (ecPublicKey ` set (wallets (registered samplePrims sampleRoot sampleWallet 2)))
   \<and> list_all (\<lambda>w. bufferHex samplePrims (ecPublicKey w) \<noteq> [])
        (wallets (registered samplePrims sampleRoot sampleWallet 2))
   \<and> list_all
        (\<lambda>w. messageVerify samplePrims ''hi''
           (getAddress samplePrims
              (addressType (registered samplePrims sampleRoot sampleWallet 2)) (ecPublicKey w))
           (messageSign samplePrims ''hi'' (bufferHex samplePrims (ecPrivateKey w))))
        (wallets (registered samplePrims sampleRoot sampleWallet 2))
   \<and> (\<exists>sig. signMessage samplePrims ''D010230353528303128303128303102'' ''hi''
                (registered samplePrims sampleRoot sampleWallet 2) = Inr sig
            \<and> verifyMessage samplePrims ''D010230353528303128303128303102'' ''hi'' sig)"
proof -
  let ?s = "registered samplePrims sampleRoot sampleWallet 2"
  have t: "addressType ?s = None"
    by (simp add: registered_fields sampleWallet_fresh)
  have h1: "''D0102303535283031283031283031'' \<notin> set (tl (getAccounts samplePrims ?s))"
    and h2: "''D010230353528303128303128303102'' \<in> set (tl (getAccounts samplePrims ?s))"
    by (simp_all add: sample_two_accounts_getAccounts)
  have h3: "inj_on (bufferHex samplePrims) (ecPublicKey ` set (wallets ?s))"
    by (simp add: sample_two_accounts_wallets sample_hex)
  have h4: "\<forall>w \<in> set (wallets ?s). bufferHex samplePrims (ecPublicKey w) \<noteq> []"
    by (simp add: sample_two_accounts_wallets sample_hex)
  have h5: "\<forall>w \<in> set (wallets ?s).
         messageVerify samplePrims ''hi'' (getAddress samplePrims (addressType ?s) (ecPublicKey w))
           (messageSign samplePrims ''hi'' (bufferHex samplePrims (ecPrivateKey w)))"
    by (simp add: t sample_two_accounts_wallets sample_hex sample_getAddress sample_verify)
  show ?thesis
    using signMessage_resolves_registered_accounts
            [of "''D0102303535283031283031283031''" samplePrims ?s "''hi''"]
          signMessage_resolves_registered_accounts
            [of "''D010230353528303128303128303102''" samplePrims ?s "''hi''"]
          h1 h2 h3 h4 h5
    unfolding list_all_iff by blast
qed

text \<open>
  C5 as stated fails: the root address is the first entry of \<open>getAccounts()\<close>, and
  \<open>signMessage\<close> throws for it.
\<close>

theorem signMessage_rejects_root_address_counterexample:
  "addAccounts samplePrims 2 sampleWallet
     = Some (Inr [''D010230353528303128303128303102'', ''D010230353528303128303128303103''],
             registered samplePrims sampleRoot sampleWallet 2)
   \<and> getAccounts samplePrims (registered samplePrims sampleRoot sampleWallet 2)
       = [''D0102303535283031283031283031'', ''D010230353528303128303128303102'',
          ''D010230353528303128303128303103'']
   \<and> ''D0102303535283031283031283031''
       \<in> set (getAccounts samplePrims (registered samplePrims sampleRoot sampleWallet 2))
   \<and> signMessage samplePrims ''D0102303535283031283031283031'' ''hi''
        (registered samplePrims sampleRoot sampleWallet 2) = Inl MustSpecifyPublicKey"
proof -
  have run: "addAccounts samplePrims 2 sampleWallet
     = Some (Inr [''D010230353528303128303128303102'', ''D010230353528303128303128303103''],
             registered samplePrims sampleRoot sampleWallet 2)"
    using addAccounts_fresh [OF sampleWallet_fresh(1-3), of samplePrims 2]
    by (simp only: sampleWallet_fresh sample_addresses) simp
  have "signMessage samplePrims ''D0102303535283031283031283031'' ''hi''
        (registered samplePrims sampleRoot sampleWallet 2) = Inl MustSpecifyPublicKey"
    by (rule signMessage_unregistered) (simp add: sample_two_accounts_getAccounts)
  with run show ?thesis
    by (simp add: sample_two_accounts_getAccounts)
qed

end
